theory Spec2Isabelle
  imports Main "HOL-Library.Sublist"
begin

section \<open>Python values\<close>

text \<open>
  The tool-call layer hands every handler a dict decoded from JSON, and every handler
  returns a dict (the \<^verbatim>\<open>TypedDict\<close> classes of the source are plain dicts at run
  time). Values are therefore modelled dynamically. A JSON number is modelled as a
  Python int. A dict value keeps its items in insertion order.
  Strings are lists of code points below 256.
\<close>

datatype pyval =
    PNone
  | PBool bool
  | PInt int
  | PStr string
  | PList "pyval list"
  | PDict "(string \<times> pyval) list"

type_synonym pydict = "(string \<times> pyval) list"

text \<open>\<^verbatim>\<open>FlowArgs\<close>, the raw arguments of a tool call.\<close>

type_synonym flow_args = "string \<rightharpoonup> pyval"

datatype error = AttributeError | KeyError | TypeError

text \<open>\<^verbatim>\<open>args.get(key, default)\<close>\<close>

definition args_get :: "flow_args \<Rightarrow> string \<Rightarrow> pyval \<Rightarrow> pyval" where
  "args_get args k d = (case args k of None \<Rightarrow> d | Some v \<Rightarrow> v)"

text \<open>
  \<^verbatim>\<open>str.lower()\<close> on code points below 256: the letters A-Z and the Latin-1 capitals
  (0xC0-0xDE without the multiplication sign 0xD7) move up by 32, everything else stays.
\<close>

definition lower_char :: "char \<Rightarrow> char" where
  "lower_char c =
     (let n = (of_char c :: nat) in
      if (65 \<le> n \<and> n \<le> 90) \<or> (192 \<le> n \<and> n \<le> 222 \<and> n \<noteq> 215)
      then char_of (n + 32) else c)"

definition str_lower :: "string \<Rightarrow> string" where
  "str_lower s = map lower_char s"

text \<open>\<^verbatim>\<open>x.lower()\<close> on a dynamic value: only a str has the method.\<close>

definition lower_method :: "pyval \<Rightarrow> error + string" where
  "lower_method v = (case v of PStr s \<Rightarrow> Inr (str_lower s) | _ \<Rightarrow> Inl AttributeError)"

text \<open>\<^verbatim>\<open>needle in haystack\<close> on two strs: the needle occurs as a contiguous run.\<close>

fun str_in :: "string \<Rightarrow> string \<Rightarrow> bool" where
  "str_in needle [] = (needle = [])"
| "str_in needle (c # cs) = (prefix needle (c # cs) \<or> str_in needle cs)"

text \<open>Truth value of an object in an \<^verbatim>\<open>if\<close>.\<close>

fun truthy :: "pyval \<Rightarrow> bool" where
  "truthy PNone = False"
| "truthy (PBool b) = b"
| "truthy (PInt i) = (i \<noteq> 0)"
| "truthy (PStr s) = (s \<noteq> [])"
| "truthy (PList vs) = (vs \<noteq> [])"
| "truthy (PDict kvs) = (kvs \<noteq> [])"

text \<open>\<^verbatim>\<open>obj[key]\<close> with a str key: a dict looks the key up, nothing else accepts it.\<close>

definition subscript :: "pyval \<Rightarrow> string \<Rightarrow> error + pyval" where
  "subscript obj k =
     (case obj of
        PDict kvs \<Rightarrow> (case map_of kvs k of None \<Rightarrow> Inl KeyError | Some v \<Rightarrow> Inr v)
      | _ \<Rightarrow> Inl TypeError)"

text \<open>\<^verbatim>\<open>obj.get(key)\<close>: a method of dict only; a missing key gives None.\<close>

definition get_method :: "pyval \<Rightarrow> string \<Rightarrow> error + pyval" where
  "get_method obj k =
     (case obj of
        PDict kvs \<Rightarrow> (case map_of kvs k of None \<Rightarrow> Inr PNone | Some v \<Rightarrow> Inr v)
      | _ \<Rightarrow> Inl AttributeError)"

text \<open>
  \<^verbatim>\<open>obj.name\<close>: attribute access never looks among the keys of a dict, and none of
  the values above has a data attribute; the names the source asks for
  (\<^verbatim>\<open>pain_location\<close>, \<^verbatim>\<open>requires_emergency_routing\<close>, ...) are no methods either.
\<close>

definition py_getattr :: "pyval \<Rightarrow> string \<Rightarrow> error + pyval" where
  "py_getattr obj name = Inl AttributeError"

text \<open>Iterating a value in a \<^verbatim>\<open>for\<close>: a list gives its elements, a str its characters,
  a dict its keys; None, a bool and an int are not iterable.\<close>

definition py_iter :: "pyval \<Rightarrow> error + pyval list" where
  "py_iter v =
     (case v of
        PList vs \<Rightarrow> Inr vs
      | PStr s \<Rightarrow> Inr (map (\<lambda>c. PStr [c]) s)
      | PDict kvs \<Rightarrow> Inr (map (\<lambda>kv. PStr (fst kv)) kvs)
      | _ \<Rightarrow> Inl TypeError)"

text \<open>A dict display \<^verbatim>\<open>{k1: e1, k2: e2, ...}\<close>: the entries are evaluated in order and the
  first exception leaves the display.\<close>

fun dict_display :: "(string \<times> (error + pyval)) list \<Rightarrow> error + pydict" where
  "dict_display [] = Inr []"
| "dict_display ((k, e) # rest) =
     (case e of
        Inl err \<Rightarrow> Inl err
      | Inr v \<Rightarrow> (case dict_display rest of Inl err \<Rightarrow> Inl err | Inr d \<Rightarrow> Inr ((k, v) # d)))"

subsection \<open>Formatting a value inside an f-string\<close>

fun decimal :: "nat \<Rightarrow> string" where
  "decimal n = (if n < 10 then [char_of (48 + n)] else decimal (n div 10) @ [char_of (48 + n mod 10)])"

declare decimal.simps [simp del]

definition int_str :: "int \<Rightarrow> string" where
  "int_str i = (if i < 0 then CHR ''-'' # decimal (nat (- i)) else decimal (nat i))"

definition hex_digit :: "nat \<Rightarrow> char" where
  "hex_digit n = (if n < 10 then char_of (48 + n) else char_of (87 + n))"

definition printable :: "char \<Rightarrow> bool" where
  "printable c = (let n = (of_char c :: nat) in (32 \<le> n \<and> n < 127) \<or> (161 \<le> n \<and> n \<noteq> 173))"

definition repr_char :: "char \<Rightarrow> char \<Rightarrow> string" where
  "repr_char q c =
     (if c = q \<or> c = CHR 0x5C then [CHR 0x5C, c]
      else if c = CHR 0x09 then [CHR 0x5C, CHR ''t'']
      else if c = CHR 0x0A then [CHR 0x5C, CHR ''n'']
      else if c = CHR 0x0D then [CHR 0x5C, CHR ''r'']
      else if printable c then [c]
      else [CHR 0x5C, CHR ''x'', hex_digit (of_char c div 16), hex_digit (of_char c mod 16)])"

definition str_repr :: "string \<Rightarrow> string" where
  "str_repr s =
     (let q = (if CHR 0x27 \<in> set s \<and> CHR 0x22 \<notin> set s then CHR 0x22 else CHR 0x27)
      in q # concat (map (repr_char q) s) @ [q])"

fun comma_join :: "string list \<Rightarrow> string" where
  "comma_join [] = []"
| "comma_join [x] = x"
| "comma_join (x # y # ys) = x @ '', '' @ comma_join (y # ys)"

fun py_repr :: "pyval \<Rightarrow> string" where
  "py_repr PNone = ''None''"
| "py_repr (PBool b) = (if b then ''True'' else ''False'')"
| "py_repr (PInt i) = int_str i"
| "py_repr (PStr s) = str_repr s"
| "py_repr (PList vs) = ''['' @ comma_join (map py_repr vs) @ '']''"
| "py_repr (PDict kvs) =
     ''{'' @ comma_join (map (\<lambda>kv. str_repr (fst kv) @ '': '' @ py_repr (snd kv)) kvs) @ ''}''"

text \<open>\<^verbatim>\<open>f"{v}"\<close>: a str is inserted as it is, any other value as its \<^verbatim>\<open>repr\<close>.\<close>

definition py_str :: "pyval \<Rightarrow> string" where
  "py_str v = (case v of PStr s \<Rightarrow> s | _ \<Rightarrow> py_repr v)"


section \<open>Node descriptors and the flow manager\<close>

text \<open>
  A node is the dict a \<^verbatim>\<open>create_..._node\<close> factory returns. The handler and the transition
  callback of a function entry are Python functions; the model names them and
  interprets the names below. A missing key of the dict is the empty list or \<open>None\<close>
  here; the key \<^verbatim>\<open>functions\<close> is the field \<open>node_functions\<close>. The \<^verbatim>\<open>description\<close> texts of the
  single parameters are left out.
\<close>

datatype json_type = TString | TBoolean | TArray json_type | TObject "(string \<times> json_type) list"

datatype handler_ref =
    Verify_consent
  | Collect_chief_complaint
  | Collect_medical_history
  | Handle_emergency
  | Shared_handle_emergency
  | Assess_chest_pain
  | Assess_respiratory

datatype callback_ref =
    Handle_consent_transition
  | Handle_complaint_transition
  | Handle_medical_history_transition
  | Handle_wrap_up_transition
  | Handle_emergency_transition
  | Handle_chest_pain_assessment
  | Handle_respiratory_assessment

record function_decl =
  fn_name :: string
  handler :: "handler_ref option"
  description :: string
  properties :: "(string \<times> json_type) list"
  required :: "string list"
  transition_callback :: "callback_ref option"
  transition_to :: "string option"

record node =
  role_messages :: "string list"
  task_messages :: "string list"
  node_functions :: "function_decl list"
  pre_actions :: "pyval list"
  post_actions :: "pyval list"

text \<open>
  \<^verbatim>\<open>FlowManager\<close>: the session state dict and the nodes handed to \<^verbatim>\<open>set_node\<close>, oldest
  first. The node installed last is the active one.
\<close>

record flow_manager =
  state :: "string \<rightharpoonup> pyval"
  installed :: "(string \<times> node) list"

definition set_node :: "string \<Rightarrow> node \<Rightarrow> flow_manager \<Rightarrow> flow_manager" where
  "set_node name n fm = fm\<lparr>installed := installed fm @ [(name, n)]\<rparr>"

text \<open>What a transition callback leaves behind: the exception it raised, if any, and the
  flow manager as it is then.\<close>

type_synonym outcome = "error option \<times> flow_manager"

section \<open>general\_nodes\<close>

subsection \<open>end.py\<close>

definition create_end_call_node :: "string \<Rightarrow> node" where
  "create_end_call_node message =
     \<lparr>role_messages = [],
      task_messages = [''Say: '' @ [CHR 0x27] @ message @ [CHR 0x27]],
      node_functions = [],
      pre_actions = [],
      post_actions = [PDict [(''type'', PStr ''end_conversation'')]]\<rparr>"

subsection \<open>wrap\_up.py\<close>

definition create_wrap_up_node :: node where
  "create_wrap_up_node =
     \<lparr>role_messages = [],
      task_messages = [''Thank the patient for their time and summarize the key information collected. Let them know that this information will be reviewed by their healthcare provider before their appointment. Ask if they have any questions before ending the call.''],
      node_functions =
        [\<lparr>fn_name = ''finish_conversation'',
          handler = None,
          description = ''End the conversation'',
          properties = [],
          required = [],
          transition_callback = Some Handle_wrap_up_transition,
          transition_to = None\<rparr>],
      pre_actions = [],
      post_actions = []\<rparr>"

definition handle_wrap_up_transition :: "flow_args \<Rightarrow> pyval \<Rightarrow> flow_manager \<Rightarrow> outcome" where
  "handle_wrap_up_transition args result fm =
     (None, set_node ''end_call'' (create_end_call_node ''Thank you for your time. Goodbye!'') fm)"

subsection \<open>medical\_history.py\<close>

definition create_medical_history_node :: node where
  "create_medical_history_node =
     \<lparr>role_messages = [],
      task_messages = [''Now I'd like to ask about your general medical history. Ask about:\<newline>1. Any existing medical conditions\<newline>2. Current medications\<newline>3. Any allergies\<newline>4. Past surgeries\<newline>Ask these questions one at a time, naturally.''],
      node_functions =
        [\<lparr>fn_name = ''collect_medical_history'',
          handler = Some Collect_medical_history,
          description = ''Collect patient's medical history'',
          properties =
            [(''conditions'', TArray TString),
             (''medications'',
                TArray (TObject [(''name'', TString), (''dosage'', TString), (''frequency'', TString)])),
             (''allergies'', TArray TString),
             (''surgeries'', TArray TString)],
          required = [''conditions'', ''medications'', ''allergies''],
          transition_callback = Some Handle_medical_history_transition,
          transition_to = None\<rparr>],
      pre_actions = [],
      post_actions = []\<rparr>"

definition collect_medical_history :: "flow_args \<Rightarrow> error + pyval" where
  "collect_medical_history args =
     Inr (PDict
       [(''status'', PStr ''success''),
        (''conditions'', args_get args ''conditions'' (PList [])),
        (''medications'', args_get args ''medications'' (PList [])),
        (''allergies'', args_get args ''allergies'' (PList [])),
        (''surgeries'', args_get args ''surgeries'' (PList []))])"

definition handle_medical_history_transition :: "flow_args \<Rightarrow> pyval \<Rightarrow> flow_manager \<Rightarrow> outcome" where
  "handle_medical_history_transition args result fm =
     (case dict_display
        [(''conditions'', subscript result ''conditions''),
         (''medications'', subscript result ''medications''),
         (''allergies'', subscript result ''allergies''),
         (''surgeries'', subscript result ''surgeries'')] of
        Inl e \<Rightarrow> (Some e, fm)
      | Inr d \<Rightarrow>
          (None, set_node ''wrap_up'' create_wrap_up_node
                   (fm\<lparr>state := (state fm)(''medical_history'' \<mapsto> PDict d)\<rparr>)))"

subsection \<open>emergency.py\<close>

text \<open>
  The module imports \<^verbatim>\<open>handle_emergency\<close> from the shared handlers and then defines a
  function of the same name; the node is built when the factory is called, so it holds
  the module's own function.
\<close>

definition create_emergency_node :: "pyval \<Rightarrow> node" where
  "create_emergency_node emergency_reason =
     \<lparr>role_messages = [],
      task_messages = [''Based on what you've told me, I need to transfer you to our medical staff immediately. Please stay on the line while I connect you. If you're experiencing severe symptoms, please consider calling emergency services or going to the nearest emergency room.''],
      node_functions =
        [\<lparr>fn_name = ''handle_emergency'',
          handler = Some Handle_emergency,
          description = ''Handle emergency routing'',
          properties = [(''emergency_reason'', TString)],
          required = [],
          transition_callback = Some Handle_emergency_transition,
          transition_to = None\<rparr>],
      pre_actions = [PDict [(''type'', PStr ''alert_staff''), (''reason'', emergency_reason)]],
      post_actions = []\<rparr>"

definition handle_emergency :: "flow_args \<Rightarrow> error + pyval" where
  "handle_emergency args =
     Inr (PDict
       [(''status'', PStr ''success''),
        (''emergency_reason'', args_get args ''emergency_reason'' (PStr ''Unspecified emergency''))])"

text \<open>\<open>now\<close> is the text \<^verbatim>\<open>datetime.now().isoformat()\<close> returns when the callback runs.\<close>

definition handle_emergency_transition ::
  "string \<Rightarrow> flow_args \<Rightarrow> pyval \<Rightarrow> flow_manager \<Rightarrow> outcome" where
  "handle_emergency_transition now args result fm =
     (case dict_display
        [(''reason'', get_method result ''emergency_reason''),
         (''timestamp'', Inr (PStr now))] of
        Inl e \<Rightarrow> (Some e, fm)
      | Inr d \<Rightarrow>
          (None, set_node ''end_call''
                   (create_end_call_node ''Please stay on the line while I transfer you to our medical staff.'')
                   (fm\<lparr>state := (state fm)(''emergency'' \<mapsto> PDict d)\<rparr>)))"

subsection \<open>shared\_handlers/handlers.py\<close>

definition shared_handle_emergency :: "string \<Rightarrow> flow_args \<Rightarrow> error + pyval" where
  "shared_handle_emergency now args =
     Inr (PDict
       [(''status'', PStr ''success''),
        (''emergency_reason'', args_get args ''emergency_reason'' (PStr ''Unspecified emergency'')),
        (''timestamp'', PStr now)])"

section \<open>specialty\_nodes\<close>

subsection \<open>base.py\<close>

text \<open>
  A subclass of \<^verbatim>\<open>SpecialtyNode\<close>: its \<^verbatim>\<open>__name__\<close>, what \<^verbatim>\<open>get_trigger_phrases()\<close>
  returns and what \<^verbatim>\<open>create_assessment_node()\<close> returns. An instance adds only
  the flow manager it was built with, so the class stands for its instances.
\<close>

record specialty_class =
  class_name :: string
  get_trigger_phrases :: "string list"
  create_assessment_node :: node

definition create_transition_node :: "specialty_class \<Rightarrow> string \<Rightarrow> node" where
  "create_transition_node self transition_message =
     \<lparr>role_messages = [],
      task_messages = [''Say: '' @ [CHR 0x27] @ transition_message @ [CHR 0x27]],
      node_functions =
        [\<lparr>fn_name = ''continue_to_'' @ str_lower (class_name self),
          handler = None,
          description = ''Continue to '' @ class_name self @ '' assessment'',
          properties = [],
          required = [],
          transition_callback = None,
          transition_to = Some (str_lower (class_name self) @ ''_assessment'')\<rparr>],
      pre_actions = [],
      post_actions = []\<rparr>"

text \<open>\<^verbatim>\<open>SpecialtyNode.setup\<close>\<close>

definition setup_specialty :: "specialty_class \<Rightarrow> string \<Rightarrow> flow_manager \<Rightarrow> flow_manager" where
  "setup_specialty self transition_message fm =
     (let transition_node = create_transition_node self transition_message;
          fm1 = set_node (str_lower (class_name self) @ ''_intro'') transition_node fm;
          assessment_node = create_assessment_node self
      in set_node (str_lower (class_name self) @ ''_assessment'') assessment_node fm1)"

subsection \<open>registry.py\<close>

text \<open>
  \<^verbatim>\<open>NodeRegistry._flows\<close>, a dict from class name to class, in insertion order. The class
  body sets it to the empty dict.
\<close>

type_synonym registry = "(string \<times> specialty_class) list"

definition NodeRegistry_flows :: registry where
  "NodeRegistry_flows = []"

text \<open>\<^verbatim>\<open>d[k] = v\<close>: a key already present keeps its place and takes the new value, a new
  key goes to the end.\<close>

fun dict_setitem :: "string \<Rightarrow> 'v \<Rightarrow> (string \<times> 'v) list \<Rightarrow> (string \<times> 'v) list" where
  "dict_setitem k v [] = [(k, v)]"
| "dict_setitem k v (kv # rest) =
     (if fst kv = k then (k, v) # rest else kv # dict_setitem k v rest)"

definition register :: "specialty_class \<Rightarrow> registry \<Rightarrow> registry" where
  "register flow_class flows = dict_setitem (class_name flow_class) flow_class flows"

text \<open>The loop of \<^verbatim>\<open>get_node_for_complaint\<close> over \<^verbatim>\<open>cls._flows.values()\<close>.\<close>

fun first_triggered :: "string \<Rightarrow> specialty_class list \<Rightarrow> specialty_class option" where
  "first_triggered complaint_lower [] = None"
| "first_triggered complaint_lower (flow_class # rest) =
     (if list_ex (\<lambda>trigger. str_in trigger complaint_lower) (get_trigger_phrases flow_class)
      then Some flow_class
      else first_triggered complaint_lower rest)"

definition get_node_for_complaint :: "registry \<Rightarrow> pyval \<Rightarrow> error + specialty_class option" where
  "get_node_for_complaint flows complaint =
     (case lower_method complaint of
        Inl e \<Rightarrow> Inl e
      | Inr complaint_lower \<Rightarrow> Inr (first_triggered complaint_lower (map snd flows)))"

subsection \<open>Emergency detection shared by both assessments\<close>

text \<open>
  \<^verbatim>\<open>any(indicator in text for indicator in emergency_indicators) or
  any(indicator in symptom.lower() for symptom in associated_symptoms
      for indicator in emergency_indicators)\<close>:
  the second \<^verbatim>\<open>any\<close> is only built when the first is false, it stops at the first hit, and
  \<^verbatim>\<open>symptom.lower()\<close> is evaluated anew for every indicator.
\<close>

fun any_indicator_in :: "string list \<Rightarrow> pyval \<Rightarrow> error + bool" where
  "any_indicator_in [] symptom = Inr False"
| "any_indicator_in (indicator # rest) symptom =
     (case lower_method symptom of
        Inl e \<Rightarrow> Inl e
      | Inr s \<Rightarrow> if str_in indicator s then Inr True else any_indicator_in rest symptom)"

fun any_symptom :: "string list \<Rightarrow> pyval list \<Rightarrow> error + bool" where
  "any_symptom indicators [] = Inr False"
| "any_symptom indicators (symptom # rest) =
     (case any_indicator_in indicators symptom of
        Inl e \<Rightarrow> Inl e
      | Inr hit \<Rightarrow> if hit then Inr True else any_symptom indicators rest)"

definition is_emergency :: "string list \<Rightarrow> string \<Rightarrow> pyval \<Rightarrow> error + bool" where
  "is_emergency emergency_indicators text associated_symptoms =
     (if list_ex (\<lambda>indicator. str_in indicator text) emergency_indicators then Inr True
      else case py_iter associated_symptoms of
             Inl e \<Rightarrow> Inl e
           | Inr symptoms \<Rightarrow> any_symptom emergency_indicators symptoms)"

subsection \<open>chest\_pain.py\<close>

definition chest_pain_indicators :: "string list" where
  "chest_pain_indicators =
     [''severe'', ''crushing'', ''extremely painful'', ''unbearable'', ''difficulty breathing'',
      ''shortness of breath'', ''sweating'', ''nausea'', ''radiating to arm'']"

definition assess_chest_pain :: "flow_args \<Rightarrow> error + pyval" where
  "assess_chest_pain args =
     (case lower_method (args_get args ''severity'' (PStr [])) of
        Inl e \<Rightarrow> Inl e
      | Inr severity \<Rightarrow>
          (let associated_symptoms = args_get args ''associated_symptoms'' (PList []) in
           case is_emergency chest_pain_indicators severity associated_symptoms of
             Inl e \<Rightarrow> Inl e
           | Inr emergency \<Rightarrow>
               Inr (PDict
                 [(''status'', PStr ''success''),
                  (''pain_location'', args_get args ''pain_location'' (PStr [])),
                  (''pain_quality'', args_get args ''pain_quality'' (PStr [])),
                  (''radiation'', args_get args ''radiation'' (PStr [])),
                  (''associated_symptoms'', associated_symptoms),
                  (''severity'', PStr severity),
                  (''aggravating_factors'', args_get args ''aggravating_factors'' (PList [])),
                  (''relieving_factors'', args_get args ''relieving_factors'' (PList [])),
                  (''requires_emergency_routing'', PBool emergency),
                  (''emergency_reason'',
                     if emergency then PStr ''Potential cardiac emergency detected'' else PNone)])))"

text \<open>The callback reads the result with \<^verbatim>\<open>result.pain_location\<close> and so on.\<close>

definition handle_chest_pain_assessment :: "flow_args \<Rightarrow> pyval \<Rightarrow> flow_manager \<Rightarrow> outcome" where
  "handle_chest_pain_assessment args result fm =
     (case dict_display
        [(''location'', py_getattr result ''pain_location''),
         (''quality'', py_getattr result ''pain_quality''),
         (''radiation'', py_getattr result ''radiation''),
         (''associated_symptoms'', py_getattr result ''associated_symptoms''),
         (''severity'', py_getattr result ''severity''),
         (''aggravating_factors'', py_getattr result ''aggravating_factors''),
         (''relieving_factors'', py_getattr result ''relieving_factors'')] of
        Inl e \<Rightarrow> (Some e, fm)
      | Inr d \<Rightarrow>
          (let fm1 = fm\<lparr>state := (state fm)(''chest_pain_assessment'' \<mapsto> PDict d)\<rparr> in
           case py_getattr result ''requires_emergency_routing'' of
             Inl e \<Rightarrow> (Some e, fm1)
           | Inr flag \<Rightarrow>
               if truthy flag
               then (case py_getattr result ''emergency_reason'' of
                       Inl e \<Rightarrow> (Some e, fm1)
                     | Inr reason \<Rightarrow> (None, set_node ''emergency'' (create_emergency_node reason) fm1))
               else (None, set_node ''medical_history'' create_medical_history_node fm1)))"

definition ChestPainNode :: specialty_class where
  "ChestPainNode =
     \<lparr>class_name = ''ChestPainNode'',
      get_trigger_phrases =
        [''chest pain'', ''chest pressure'', ''chest tightness'', ''heart pain'', ''angina''],
      create_assessment_node =
        \<lparr>role_messages = [''You are assessing chest pain symptoms. Be alert for signs of emergency.''],
         task_messages = [''Carefully assess chest pain characteristics. Ask about:\<newline>1. Location and radiation of pain\<newline>2. Quality of pain (sharp, dull, pressure, etc.)\<newline>3. Severity (1-10 scale)\<newline>4. Associated symptoms\<newline>5. What makes it better or worse''],
         node_functions =
           [\<lparr>fn_name = ''assess_chest_pain'',
             handler = Some Assess_chest_pain,
             description = ''Assess chest pain symptoms'',
             properties =
               [(''pain_location'', TString),
                (''pain_quality'', TString),
                (''radiation'', TString),
                (''associated_symptoms'', TArray TString),
                (''severity'', TString),
                (''aggravating_factors'', TArray TString),
                (''relieving_factors'', TArray TString)],
             required = [''pain_location'', ''pain_quality'', ''severity''],
             transition_callback = Some Handle_chest_pain_assessment,
             transition_to = None\<rparr>],
         pre_actions = [],
         post_actions = []\<rparr>\<rparr>"

subsection \<open>respiratory.py\<close>

definition respiratory_indicators :: "string list" where
  "respiratory_indicators =
     [''severe difficulty'', ''can't breathe'', ''unable to breathe'', ''blue lips'', ''chest pain'',
      ''dizzy'', ''confused'']"

definition assess_respiratory :: "flow_args \<Rightarrow> error + pyval" where
  "assess_respiratory args =
     (case lower_method (args_get args ''breathing_difficulty'' (PStr [])) of
        Inl e \<Rightarrow> Inl e
      | Inr breathing_difficulty \<Rightarrow>
          (let associated_symptoms = args_get args ''associated_symptoms'' (PList []) in
           case is_emergency respiratory_indicators breathing_difficulty associated_symptoms of
             Inl e \<Rightarrow> Inl e
           | Inr emergency \<Rightarrow>
               Inr (PDict
                 [(''status'', PStr ''success''),
                  (''breathing_difficulty'', PStr breathing_difficulty),
                  (''cough_type'', args_get args ''cough_type'' (PStr [])),
                  (''cough_duration'', args_get args ''cough_duration'' (PStr [])),
                  (''sputum_presence'', args_get args ''sputum_presence'' (PBool False)),
                  (''sputum_description'', args_get args ''sputum_description'' (PStr [])),
                  (''associated_symptoms'', associated_symptoms),
                  (''requires_emergency'', PBool emergency),
                  (''emergency_reason'',
                     if emergency then PStr ''Severe respiratory distress detected'' else PNone)])))"

definition handle_respiratory_assessment :: "flow_args \<Rightarrow> pyval \<Rightarrow> flow_manager \<Rightarrow> outcome" where
  "handle_respiratory_assessment args result fm =
     (case dict_display
        [(''breathing_difficulty'', subscript result ''breathing_difficulty''),
         (''cough_type'', subscript result ''cough_type''),
         (''cough_duration'', subscript result ''cough_duration''),
         (''sputum_presence'', subscript result ''sputum_presence''),
         (''sputum_description'', subscript result ''sputum_description''),
         (''associated_symptoms'', subscript result ''associated_symptoms'')] of
        Inl e \<Rightarrow> (Some e, fm)
      | Inr d \<Rightarrow>
          (let fm1 = fm\<lparr>state := (state fm)(''respiratory_assessment'' \<mapsto> PDict d)\<rparr> in
           case subscript result ''requires_emergency'' of
             Inl e \<Rightarrow> (Some e, fm1)
           | Inr flag \<Rightarrow>
               if truthy flag
               then (case subscript result ''emergency_reason'' of
                       Inl e \<Rightarrow> (Some e, fm1)
                     | Inr reason \<Rightarrow> (None, set_node ''emergency'' (create_emergency_node reason) fm1))
               else (None, set_node ''medical_history'' create_medical_history_node fm1)))"

definition RespiratoryNode :: specialty_class where
  "RespiratoryNode =
     \<lparr>class_name = ''RespiratoryNode'',
      get_trigger_phrases =
        [''breathing problem'', ''shortness of breath'', ''difficulty breathing'', ''cough'',
         ''respiratory'', ''breathing difficulty''],
      create_assessment_node =
        \<lparr>role_messages = [],
         task_messages = [''Continue gathering information about their breathing symptoms naturally. Ask about:\<newline>1. Difficulty breathing - when it occurs, severity\<newline>2. Cough - type (dry/wet), duration\<newline>3. Any mucus or phlegm\<newline>4. Associated symptoms\<newline>Ask these questions conversationally, one at a time.''],
         node_functions =
           [\<lparr>fn_name = ''assess_respiratory'',
             handler = Some Assess_respiratory,
             description = ''Collect detailed respiratory information'',
             properties =
               [(''breathing_difficulty'', TString),
                (''cough_type'', TString),
                (''cough_duration'', TString),
                (''sputum_presence'', TBoolean),
                (''sputum_description'', TString),
                (''associated_symptoms'', TArray TString)],
             required = [''breathing_difficulty'', ''cough_type'', ''cough_duration''],
             transition_callback = Some Handle_respiratory_assessment,
             transition_to = None\<rparr>],
         pre_actions = [],
         post_actions = []\<rparr>\<rparr>"

section \<open>general\_nodes, continued\<close>

subsection \<open>chief\_complaint.py\<close>

definition create_chief_complaint_node :: node where
  "create_chief_complaint_node =
     \<lparr>role_messages = [],
      task_messages = [''Ask: 'Could you please tell me the main reason for your appointment?' After their response, ask about duration: 'How long have you been experiencing these symptoms?'' @ [CHR 0x27]],
      node_functions =
        [\<lparr>fn_name = ''collect_chief_complaint'',
          handler = Some Collect_chief_complaint,
          description = ''Collect chief complaint information'',
          properties = [(''complaint'', TString), (''duration'', TString)],
          required = [''complaint'', ''duration''],
          transition_callback = Some Handle_complaint_transition,
          transition_to = None\<rparr>],
      pre_actions = [],
      post_actions = []\<rparr>"

definition collect_chief_complaint :: "flow_args \<Rightarrow> error + pyval" where
  "collect_chief_complaint args =
     Inr (PDict
       [(''status'', PStr ''success''),
        (''complaint'', args_get args ''complaint'' (PStr [])),
        (''duration'', args_get args ''duration'' (PStr []))])"

text \<open>The f-string of \<^verbatim>\<open>handle_complaint_transition\<close>.\<close>

definition transition_message :: "pyval \<Rightarrow> pyval \<Rightarrow> string" where
  "transition_message complaint duration =
     ''I understand you've been experiencing '' @ py_str complaint @ '' for '' @ py_str duration
       @ ''. I'd like to ask a few more specific questions about this to help the doctor better prepare for your appointment.''"

text \<open>\<open>flows\<close> is \<^verbatim>\<open>NodeRegistry._flows\<close> as it is when the callback runs.\<close>

definition handle_complaint_transition ::
  "registry \<Rightarrow> flow_args \<Rightarrow> pyval \<Rightarrow> flow_manager \<Rightarrow> outcome" where
  "handle_complaint_transition flows args result fm =
     (case dict_display
        [(''complaint'', subscript result ''complaint''),
         (''duration'', subscript result ''duration'')] of
        Inl e \<Rightarrow> (Some e, fm)
      | Inr d \<Rightarrow>
          (let fm1 = fm\<lparr>state := (state fm)(''chief_complaint'' \<mapsto> PDict d)\<rparr> in
           case subscript result ''complaint'' of
             Inl e \<Rightarrow> (Some e, fm1)
           | Inr complaint \<Rightarrow>
               (case get_node_for_complaint flows complaint of
                  Inl e \<Rightarrow> (Some e, fm1)
                | Inr None \<Rightarrow> (None, set_node ''medical_history'' create_medical_history_node fm1)
                | Inr (Some specialty_flow) \<Rightarrow>
                    (case subscript result ''duration'' of
                       Inl e \<Rightarrow> (Some e, fm1)
                     | Inr duration \<Rightarrow>
                         (None, setup_specialty specialty_flow
                                  (transition_message complaint duration) fm1)))))"

subsection \<open>entry.py\<close>

definition create_entry_node :: node where
  "create_entry_node =
     \<lparr>role_messages = [''You are Alice, an agent for the Surrey Medical Clinic. Your job is to collect important information from the user before their doctor visit. You're talking to Ricky Sangha. You should address the user by their first name and be polite and professional. You're not a medical professional, so you shouldn't provide any advice. Keep your responses short. Your job is to collect information to give to a doctor. Don't make assumptions about what values to plug into functions. Ask for clarification if a user response is ambiguous.Maintain a professional, friendly, and empathetic tone. Speak naturally and clearly as this is a voice conversation.''],
      task_messages = [''Start by introducing yourself as an automated assistant from the medical office. Explain that you're calling to gather some information before their upcoming appointment. Ask for their consent to collect health information.''],
      node_functions =
        [\<lparr>fn_name = ''process_consent'',
          handler = Some Verify_consent,
          description = ''Process patient consent'',
          properties = [(''consent'', TBoolean)],
          required = [''consent''],
          transition_callback = Some Handle_consent_transition,
          transition_to = None\<rparr>],
      pre_actions = [],
      post_actions = []\<rparr>"

definition consent_result :: "bool \<Rightarrow> pyval" where
  "consent_result consent_given =
     PDict [(''status'', PStr ''success''), (''consent_given'', PBool consent_given)]"

definition verify_consent :: "flow_args \<Rightarrow> error + pyval" where
  "verify_consent args =
     (case args_get args ''consent'' (PStr []) of
        PBool consent_given \<Rightarrow> Inr (consent_result consent_given)
      | PStr consent \<Rightarrow> Inr (consent_result (str_lower consent = ''true''))
      | _ \<Rightarrow> Inr (consent_result False))"

definition handle_consent_transition :: "flow_args \<Rightarrow> pyval \<Rightarrow> flow_manager \<Rightarrow> outcome" where
  "handle_consent_transition args result fm =
     (case subscript result ''consent_given'' of
        Inl e \<Rightarrow> (Some e, fm)
      | Inr consent_given \<Rightarrow>
          if truthy consent_given
          then (None, set_node ''chief_complaint'' create_chief_complaint_node
                        (fm\<lparr>state := (state fm)(''consent_given'' \<mapsto> PBool True)\<rparr>))
          else (None, set_node ''end_call''
                        (create_end_call_node ''I understand. I'll have a staff member contact you directly. Thank you for your time.'')
                        fm))"

section \<open>Running a session\<close>

text \<open>The handler and the callback a name stands for. \<open>now\<close> is the clock reading of the
  call, for the functions that ask for it.\<close>

fun run_handler :: "handler_ref \<Rightarrow> string \<Rightarrow> flow_args \<Rightarrow> error + pyval" where
  "run_handler Verify_consent now args = verify_consent args"
| "run_handler Collect_chief_complaint now args = collect_chief_complaint args"
| "run_handler Collect_medical_history now args = collect_medical_history args"
| "run_handler Handle_emergency now args = handle_emergency args"
| "run_handler Shared_handle_emergency now args = shared_handle_emergency now args"
| "run_handler Assess_chest_pain now args = assess_chest_pain args"
| "run_handler Assess_respiratory now args = assess_respiratory args"

fun run_callback ::
  "callback_ref \<Rightarrow> registry \<Rightarrow> string \<Rightarrow> flow_args \<Rightarrow> pyval \<Rightarrow> flow_manager \<Rightarrow> outcome" where
  "run_callback Handle_consent_transition flows now args result fm =
     handle_consent_transition args result fm"
| "run_callback Handle_complaint_transition flows now args result fm =
     handle_complaint_transition flows args result fm"
| "run_callback Handle_medical_history_transition flows now args result fm =
     handle_medical_history_transition args result fm"
| "run_callback Handle_wrap_up_transition flows now args result fm =
     handle_wrap_up_transition args result fm"
| "run_callback Handle_emergency_transition flows now args result fm =
     handle_emergency_transition now args result fm"
| "run_callback Handle_chest_pain_assessment flows now args result fm =
     handle_chest_pain_assessment args result fm"
| "run_callback Handle_respiratory_assessment flows now args result fm =
     handle_respiratory_assessment args result fm"

text \<open>
  bot.py starts a session with an empty state and the entry node under the name
  \<^verbatim>\<open>initial\<close>.
\<close>

definition session_start :: flow_manager where
  "session_start = set_node ''initial'' create_entry_node \<lparr>state = Map.empty, installed = []\<rparr>"

definition active :: "flow_manager \<Rightarrow> (string \<times> node) option" where
  "active fm = (if installed fm = [] then None else Some (last (installed fm)))"

definition active_name :: "flow_manager \<Rightarrow> string" where
  "active_name fm = (case active fm of None \<Rightarrow> [] | Some (name, n) \<Rightarrow> name)"

text \<open>
  One tool call, as the flow runtime serves it (section 4.5 of the specification: the
  transition runs inside the node's callback, immediately after the handler has produced
  its result): the called function of the active node runs its handler on the raw
  arguments and hands the result to its transition callback. A function without a
  handler hands over an acknowledgement; the callbacks of such functions ignore it.
  An exception ends the call and leaves the flow manager as it is then. A function with
  a static \<^verbatim>\<open>transition_to\<close> is left to the runtime and changes nothing here.
\<close>

record tool_call =
  called :: string
  clock :: string
  raw_args :: flow_args

definition call_function :: "registry \<Rightarrow> function_decl \<Rightarrow> tool_call \<Rightarrow> flow_manager \<Rightarrow> outcome" where
  "call_function flows f c fm =
     (case (case handler f of
              None \<Rightarrow> Inr (PDict [(''status'', PStr ''acknowledged'')])
            | Some h \<Rightarrow> run_handler h (clock c) (raw_args c)) of
        Inl e \<Rightarrow> (Some e, fm)
      | Inr result \<Rightarrow>
          (case transition_callback f of
             None \<Rightarrow> (None, fm)
           | Some cb \<Rightarrow> run_callback cb flows (clock c) (raw_args c) result fm))"

definition step :: "registry \<Rightarrow> tool_call \<Rightarrow> flow_manager \<Rightarrow> outcome" where
  "step flows c fm =
     (case active fm of
        None \<Rightarrow> (None, fm)
      | Some (name, n) \<Rightarrow>
          (case find (\<lambda>f. fn_name f = called c) (node_functions n) of
             None \<Rightarrow> (None, fm)
           | Some f \<Rightarrow> call_function flows f c fm))"

fun run :: "registry \<Rightarrow> flow_manager \<Rightarrow> tool_call list \<Rightarrow> flow_manager" where
  "run flows fm [] = fm"
| "run flows fm (c # cs) = run flows (snd (step flows c fm)) cs"

section \<open>Declared parameter types\<close>

text \<open>A value has a declared JSON type; raw arguments conform to a function's parameters
  when every supplied parameter has its declared type.\<close>

fun has_type :: "json_type \<Rightarrow> pyval \<Rightarrow> bool" where
  "has_type TString v = (case v of PStr s \<Rightarrow> True | _ \<Rightarrow> False)"
| "has_type TBoolean v = (case v of PBool b \<Rightarrow> True | _ \<Rightarrow> False)"
| "has_type (TArray t) v = (case v of PList vs \<Rightarrow> list_all (has_type t) vs | _ \<Rightarrow> False)"
| "has_type (TObject members) v =
     (case v of
        PDict kvs \<Rightarrow>
          list_all (\<lambda>ft. case map_of kvs (fst ft) of None \<Rightarrow> True | Some x \<Rightarrow> has_type (snd ft) x) members
      | _ \<Rightarrow> False)"

definition conforms :: "(string \<times> json_type) list \<Rightarrow> flow_args \<Rightarrow> bool" where
  "conforms props args =
     list_all (\<lambda>p. case args (fst p) of None \<Rightarrow> True | Some v \<Rightarrow> has_type (snd p) v) props"

section \<open>Notions the specification uses\<close>

text \<open>A keyword occurs in a text, case-insensitively: after lower-casing both, the keyword
  is a contiguous part of the text.\<close>

definition occurs_ignoring_case :: "string \<Rightarrow> string \<Rightarrow> bool" where
  "occurs_ignoring_case keyword text \<longleftrightarrow> sublist (str_lower keyword) (str_lower text)"

text \<open>Registration as the specification words it: a class whose name is already present
  is refused with a configuration error, any other class is added at the end.\<close>

datatype config_error = ConfigurationError

definition register_spec :: "specialty_class \<Rightarrow> registry \<Rightarrow> config_error + registry" where
  "register_spec flow_class flows =
     (if class_name flow_class \<in> set (map fst flows) then Inl ConfigurationError
      else Inr (flows @ [(class_name flow_class, flow_class)]))"

text \<open>The message of the end node that follows a refused consent.\<close>

definition decline_message :: string where
  "decline_message = ''I understand. I'll have a staff member contact you directly. Thank you for your time.''"

text \<open>
  The emergency policy of the specification, read on the raw arguments: some indicator
  occurs, case-insensitively, in the free-text field or in an element of the list of
  associated symptoms. The free text is the field when it is a string, the symptoms are
  the strings of the field when it is a list; a missing field contributes nothing.
\<close>

definition free_text :: "flow_args \<Rightarrow> string \<Rightarrow> string" where
  "free_text args field = (case args field of Some (PStr s) \<Rightarrow> s | _ \<Rightarrow> [])"

definition symptom_texts :: "flow_args \<Rightarrow> string list" where
  "symptom_texts args =
     (case args ''associated_symptoms'' of
        Some (PList vs) \<Rightarrow> concat (map (\<lambda>v. case v of PStr s \<Rightarrow> [s] | _ \<Rightarrow> []) vs)
      | _ \<Rightarrow> [])"

definition keyword_policy :: "string list \<Rightarrow> flow_args \<Rightarrow> string \<Rightarrow> bool" where
  "keyword_policy indicators args field \<longleftrightarrow>
     (\<exists>k\<in>set indicators.
        occurs_ignoring_case k (free_text args field)
        \<or> (\<exists>s\<in>set (symptom_texts args). occurs_ignoring_case k s))"

text \<open>The associated symptoms are missing or a list.\<close>

definition symptoms_listed :: "flow_args \<Rightarrow> bool" where
  "symptoms_listed args =
     (case args ''associated_symptoms'' of
        None \<Rightarrow> True
      | Some (PList vs) \<Rightarrow> True
      | _ \<Rightarrow> False)"

text \<open>The parameters a node declares for its functions, and those each handler is
  called with. No node installs the shared \<open>handle_emergency\<close>; it reads the argument of
  the emergency node's function.\<close>

definition parameters :: "node \<Rightarrow> (string \<times> json_type) list" where
  "parameters n = concat (map properties (node_functions n))"

fun declared_parameters :: "handler_ref \<Rightarrow> (string \<times> json_type) list" where
  "declared_parameters Verify_consent = parameters create_entry_node"
| "declared_parameters Collect_chief_complaint = parameters create_chief_complaint_node"
| "declared_parameters Collect_medical_history = parameters create_medical_history_node"
| "declared_parameters Handle_emergency = parameters (create_emergency_node PNone)"
| "declared_parameters Shared_handle_emergency = parameters (create_emergency_node PNone)"
| "declared_parameters Assess_chest_pain = parameters (create_assessment_node ChestPainNode)"
| "declared_parameters Assess_respiratory = parameters (create_assessment_node RespiratoryNode)"

text \<open>
  The registry match as the specification words it: the first registered class one of
  whose trigger phrases occurs, case-insensitively, in the complaint.
\<close>

definition triggered_ignoring_case :: "string \<Rightarrow> specialty_class \<Rightarrow> bool" where
  "triggered_ignoring_case complaint flow_class \<longleftrightarrow>
     (\<exists>phrase\<in>set (get_trigger_phrases flow_class). occurs_ignoring_case phrase complaint)"

definition match_spec :: "registry \<Rightarrow> string \<Rightarrow> specialty_class option" where
  "match_spec flows complaint = find (triggered_ignoring_case complaint) (map snd flows)"

text \<open>The same with the phrases taken as they are registered: only the complaint is
  lower-cased.\<close>

definition phrase_in_lowered :: "string \<Rightarrow> specialty_class \<Rightarrow> bool" where
  "phrase_in_lowered complaint flow_class \<longleftrightarrow>
     (\<exists>phrase\<in>set (get_trigger_phrases flow_class). sublist phrase (str_lower complaint))"

text \<open>
  The safe default of a declared type, the key of the result that holds a parameter
  (\<open>verify_consent\<close> returns the parameter \<open>consent\<close> as \<open>consent_given\<close>), and the default a
  handler really uses for a missing parameter.
\<close>

fun safe_default :: "json_type \<Rightarrow> pyval" where
  "safe_default TString = PStr []"
| "safe_default TBoolean = PBool False"
| "safe_default (TArray t) = PList []"
| "safe_default (TObject members) = PDict []"

definition result_key :: "handler_ref \<Rightarrow> string \<Rightarrow> string" where
  "result_key h k = (if h = Verify_consent \<and> k = ''consent'' then ''consent_given'' else k)"

definition default_of :: "handler_ref \<Rightarrow> json_type \<Rightarrow> pyval" where
  "default_of h t =
     (if h = Handle_emergency \<or> h = Shared_handle_emergency then PStr ''Unspecified emergency''
      else safe_default t)"

text \<open>What \<open>collect_chief_complaint\<close> returns for the complaint \<open>I have chest pain\<close> of two
  days.\<close>

definition chest_pain_result :: pyval where
  "chest_pain_result =
     PDict [(''status'', PStr ''success''), (''complaint'', PStr ''I have chest pain''),
            (''duration'', PStr ''2 days'')]"

text \<open>
  The states a session visits: the name of the active node is recorded each time a call
  installs something, and at the end. A specialty's intro and assessment nodes are
  installed by one call, so only the assessment node is ever active when a call arrives.
\<close>

fun path :: "registry \<Rightarrow> flow_manager \<Rightarrow> tool_call list \<Rightarrow> string list" where
  "path flows fm [] = [active_name fm]"
| "path flows fm (c # cs) =
     (if installed (snd (step flows c fm)) = installed fm
      then path flows (snd (step flows c fm)) cs
      else active_name fm # path flows (snd (step flows c fm)) cs)"

text \<open>A well-formed call names a function of the active node and its arguments have the
  declared types.\<close>

definition well_formed_call :: "flow_manager \<Rightarrow> tool_call \<Rightarrow> bool" where
  "well_formed_call fm c =
     (case active fm of
        None \<Rightarrow> False
      | Some (name, n) \<Rightarrow>
          (case find (\<lambda>f. fn_name f = called c) (node_functions n) of
             None \<Rightarrow> False
           | Some f \<Rightarrow> conforms (properties f) (raw_args c)))"

fun well_formed_calls :: "registry \<Rightarrow> flow_manager \<Rightarrow> tool_call list \<Rightarrow> bool" where
  "well_formed_calls flows fm [] = True"
| "well_formed_calls flows fm (c # cs) =
     (well_formed_call fm c \<and> well_formed_calls flows (snd (step flows c fm)) cs)"

text \<open>A registry that holds only the two specialty classes of the repository.\<close>

definition repository_registry :: "registry \<Rightarrow> bool" where
  "repository_registry flows = list_all (\<lambda>c. c = ChestPainNode \<or> c = RespiratoryNode) (map snd flows)"

text \<open>The order of the states along a session, and the nodes a session can be at.\<close>

definition rank :: "string \<Rightarrow> nat" where
  "rank name =
     (if name = ''initial'' then 0
      else if name = ''chief_complaint'' then 1
      else if name = ''chestpainnode_assessment'' \<or> name = ''respiratorynode_assessment'' then 2
      else if name = ''medical_history'' \<or> name = ''emergency'' then 3
      else if name = ''wrap_up'' then 4
      else 5)"

inductive known_node :: "string \<times> node \<Rightarrow> bool" where
  entry: "known_node (''initial'', create_entry_node)"
| chief: "known_node (''chief_complaint'', create_chief_complaint_node)"
| chest: "known_node (''chestpainnode_assessment'', create_assessment_node ChestPainNode)"
| resp: "known_node (''respiratorynode_assessment'', create_assessment_node RespiratoryNode)"
| med: "known_node (''medical_history'', create_medical_history_node)"
| wrap: "known_node (''wrap_up'', create_wrap_up_node)"
| emergency: "known_node (''emergency'', create_emergency_node reason)"
| end_call: "known_node (''end_call'', create_end_call_node message)"

text \<open>What a call may add to the installed nodes.\<close>

definition adds :: "flow_manager \<Rightarrow> flow_manager \<Rightarrow> (string \<times> node) list \<Rightarrow> bool" where
  "adds fm fm' new \<longleftrightarrow> installed fm' = installed fm @ new"

text \<open>One call either installs nothing or moves to a known node of higher rank.\<close>

definition advances :: "string \<times> node \<Rightarrow> flow_manager \<Rightarrow> flow_manager \<Rightarrow> bool" where
  "advances p fm fm' \<longleftrightarrow>
     installed fm' = installed fm
     \<or> (installed fm' \<noteq> installed fm
         \<and> (\<exists>q. active fm' = Some q \<and> known_node q \<and> rank (fst p) < rank (fst q)))"

text \<open>
  The general intake path, which a session follows while no specialty is registered:
  its nodes, and the number of calls each is away from the end node at most.
\<close>

definition remaining :: "string \<Rightarrow> nat" where
  "remaining name =
     (if name = ''initial'' then 4
      else if name = ''chief_complaint'' then 3
      else if name = ''medical_history'' then 2
      else if name = ''wrap_up'' then 1
      else 0)"

inductive general_node :: "string \<times> node \<Rightarrow> bool" where
  g_entry: "general_node (''initial'', create_entry_node)"
| g_chief: "general_node (''chief_complaint'', create_chief_complaint_node)"
| g_med: "general_node (''medical_history'', create_medical_history_node)"
| g_wrap: "general_node (''wrap_up'', create_wrap_up_node)"
| g_end: "general_node (''end_call'', create_end_call_node message)"

section \<open>Basic facts\<close>

lemma str_lower_simps [simp]:
  "str_lower [] = []" "str_lower (c # cs) = lower_char c # str_lower cs"
  by (simp_all add: str_lower_def)

lemma str_in_sublist: "str_in needle hay \<longleftrightarrow> sublist needle hay"
  by (induction hay) (auto simp: sublist_Cons_right)

section \<open>The consent handler\<close>

text \<open>
  C10. For every raw arguments dict, \<open>verify_consent\<close> returns (it never raises) a result
  with status \<open>success\<close> whose \<open>consent_given\<close> is the value of the field \<open>consent\<close> when that
  is a bool, is true exactly when the lower-cased field is \<open>true\<close> when that is a str, and
  is false when the field is missing or has any other type.
\<close>

theorem verify_consent_cases:
  "verify_consent args =
     Inr (PDict
       [(''status'', PStr ''success''),
        (''consent_given'',
           PBool (case args ''consent'' of
                    Some (PBool b) \<Rightarrow> b
                  | Some (PStr s) \<Rightarrow> str_lower s = ''true''
                  | _ \<Rightarrow> False))])"
  by (simp add: verify_consent_def consent_result_def args_get_def
      split: option.splits pyval.splits)

theorem verify_consent_cases_witness:
  "verify_consent [''consent'' \<mapsto> PStr ''TRUE''] =
     Inr (PDict [(''status'', PStr ''success''), (''consent_given'', PBool True)])"
proof -
  have "str_lower ''TRUE'' = ''true''" by code_simp
  then show ?thesis
    using verify_consent_cases [of "[''consent'' \<mapsto> PStr ''TRUE'']"] by simp
qed

section \<open>The consent transition\<close>

text \<open>
  C4. After a consent result with \<open>consent_given\<close> true, the callback records the flag
  \<open>consent_given\<close> in the session state and installs the chief complaint node next. After
  a refusal the very next node it installs is the end node, which offers no function and
  ends the conversation; the session state is left as it was, so a session that starts
  empty holds no topic key at all.
\<close>

theorem consent_transition:
  "handle_consent_transition args (consent_result True) fm =
     (None, fm\<lparr>state := (state fm)(''consent_given'' \<mapsto> PBool True),
               installed := installed fm @ [(''chief_complaint'', create_chief_complaint_node)]\<rparr>)
   \<and> handle_consent_transition args (consent_result False) fm =
     (None, fm\<lparr>installed := installed fm @ [(''end_call'', create_end_call_node decline_message)]\<rparr>)
   \<and> node_functions (create_end_call_node decline_message) = []
   \<and> post_actions (create_end_call_node decline_message) = [PDict [(''type'', PStr ''end_conversation'')]]
   \<and> state (snd (handle_consent_transition args (consent_result False) session_start)) = Map.empty"
  by (simp add: handle_consent_transition_def consent_result_def subscript_def set_node_def
      create_end_call_node_def decline_message_def session_start_def)

theorem consent_transition_witness:
  "map fst (installed (snd (handle_consent_transition Map.empty (consent_result False) session_start)))
     = [''initial'', ''end_call'']
   \<and> dom (state (snd (handle_consent_transition Map.empty (consent_result False) session_start))) = {}"
  using consent_transition [of Map.empty session_start]
  by (simp add: session_start_def set_node_def)

section \<open>Registration\<close>

lemma dict_setitem_keys: "k \<in> set (map fst d) \<Longrightarrow> map fst (dict_setitem k v d) = map fst d"
  by (induction d) auto

lemma dict_setitem_new: "k \<notin> set (map fst d) \<Longrightarrow> dict_setitem k v d = d @ [(k, v)]"
  by (induction d) auto

lemma map_of_dict_setitem: "map_of (dict_setitem k v d) = (map_of d)(k \<mapsto> v)"
  by (induction d) (auto simp: fun_eq_iff)

text \<open>
  C6, as the code has it. \<open>register\<close> never fails. Afterwards the registry holds the
  registered class under its name; when the name was already present the entry keeps
  its place in the order and the class stored there before is replaced, and when the
  name is new the class is added at the end, as the specification says.
\<close>

theorem register_replaces:
  "map_of (register flow_class flows) = (map_of flows)(class_name flow_class \<mapsto> flow_class)
   \<and> (class_name flow_class \<in> set (map fst flows) \<longrightarrow>
        map fst (register flow_class flows) = map fst flows)
   \<and> (class_name flow_class \<notin> set (map fst flows) \<longrightarrow>
        Inr (register flow_class flows) = register_spec flow_class flows)"
  by (simp add: register_def register_spec_def dict_setitem_keys dict_setitem_new map_of_dict_setitem)

theorem register_replaces_witness:
  "map_of (register (ChestPainNode\<lparr>get_trigger_phrases := [''pain'']\<rparr>) [(''ChestPainNode'', ChestPainNode)])
     ''ChestPainNode'' = Some (ChestPainNode\<lparr>get_trigger_phrases := [''pain'']\<rparr>)
   \<and> map fst (register (ChestPainNode\<lparr>get_trigger_phrases := [''pain'']\<rparr>) [(''ChestPainNode'', ChestPainNode)])
     = [''ChestPainNode'']
   \<and> Inr (register RespiratoryNode [(''ChestPainNode'', ChestPainNode)])
     = register_spec RespiratoryNode [(''ChestPainNode'', ChestPainNode)]"
  using register_replaces [of "ChestPainNode\<lparr>get_trigger_phrases := [''pain'']\<rparr>" "[(''ChestPainNode'', ChestPainNode)]"]
    register_replaces [of RespiratoryNode "[(''ChestPainNode'', ChestPainNode)]"]
  by (simp add: ChestPainNode_def RespiratoryNode_def)

text \<open>The claim as stated fails: a second class named \<open>ChestPainNode\<close> is refused by the
  specification's registration and silently takes the place of the first in the code.\<close>

theorem register_duplicate_counterexample:
  "register_spec (ChestPainNode\<lparr>get_trigger_phrases := [''pain'']\<rparr>) [(''ChestPainNode'', ChestPainNode)]
     = Inl ConfigurationError
   \<and> register (ChestPainNode\<lparr>get_trigger_phrases := [''pain'']\<rparr>) [(''ChestPainNode'', ChestPainNode)]
     = [(''ChestPainNode'', ChestPainNode\<lparr>get_trigger_phrases := [''pain'']\<rparr>)]
   \<and> ChestPainNode\<lparr>get_trigger_phrases := [''pain'']\<rparr> \<noteq> ChestPainNode"
  by (simp add: register_def register_spec_def ChestPainNode_def)

section \<open>Handlers as functions of their arguments\<close>

text \<open>
  C7, as the code has it. Every handler except the shared \<open>handle_emergency\<close> returns a
  result that depends on the raw arguments alone, whatever the clock shows. The shared
  \<open>handle_emergency\<close> stamps the clock reading into its result: two calls with the same
  arguments agree on everything but the last entry, \<open>timestamp\<close>.
\<close>

theorem handlers_pure_except_shared:
  "(h \<noteq> Shared_handle_emergency \<longrightarrow> run_handler h now args = run_handler h now' args)
   \<and> (\<exists>d. \<forall>t. run_handler Shared_handle_emergency t args = Inr (PDict (d @ [(''timestamp'', PStr t)])))"
  by (cases h) (simp_all add: shared_handle_emergency_def)

theorem handlers_pure_except_shared_witness:
  "run_handler Assess_chest_pain ''2025-01-01T09:00:00'' [''severity'' \<mapsto> PStr ''mild'']
     = run_handler Assess_chest_pain ''2025-01-01T09:00:01'' [''severity'' \<mapsto> PStr ''mild'']"
  using handlers_pure_except_shared [of Assess_chest_pain "''2025-01-01T09:00:00''" "[''severity'' \<mapsto> PStr ''mild'']" "''2025-01-01T09:00:01''"]
  by simp

text \<open>The claim as stated fails: the shared handler, called twice with the same (empty)
  arguments one second apart, returns two different results.\<close>

theorem shared_handler_clock_counterexample:
  "run_handler Shared_handle_emergency ''2025-01-01T09:00:00'' Map.empty
     \<noteq> run_handler Shared_handle_emergency ''2025-01-01T09:00:01'' Map.empty"
  by (simp add: shared_handle_emergency_def)

section \<open>Emergency detection\<close>

lemma lower_method_Inr: "lower_method v = Inr t \<longleftrightarrow> (\<exists>s. v = PStr s \<and> t = str_lower s)"
  by (auto simp: lower_method_def split: pyval.splits)

lemma any_indicator_in_Inr:
  "any_indicator_in inds v = Inr b \<Longrightarrow>
     b = (\<exists>s. v = PStr s \<and> list_ex (\<lambda>k. str_in k (str_lower s)) inds)"
  by (induction inds) (auto simp: lower_method_def split: pyval.splits if_splits)

lemma any_symptom_Inr:
  "any_symptom inds vs = Inr b \<Longrightarrow>
     b = (\<exists>v\<in>set vs. \<exists>s. v = PStr s \<and> list_ex (\<lambda>k. str_in k (str_lower s)) inds)"
proof (induction vs)
  case Nil
  then show ?case by simp
next
  case (Cons v vs)
  then show ?case
    by (auto split: sum.splits if_splits dest: any_indicator_in_Inr)
qed

lemma set_symptom_texts:
  "symptoms_listed args \<Longrightarrow>
   py_iter (args_get args ''associated_symptoms'' (PList [])) = Inr vs \<Longrightarrow>
     set (symptom_texts args) = {s. PStr s \<in> set vs}"
  by (auto simp: symptom_texts_def symptoms_listed_def args_get_def py_iter_def
      split: option.splits pyval.splits)

lemma conforms_symptoms_listed:
  "(case args ''associated_symptoms'' of None \<Rightarrow> True | Some v \<Rightarrow> has_type (TArray TString) v) \<Longrightarrow>
     symptoms_listed args"
  by (auto simp: symptoms_listed_def split: option.splits pyval.splits)

lemma is_emergency_policy:
  assumes low: "\<forall>k\<in>set inds. str_lower k = k"
    and listed: "symptoms_listed args"
    and tx: "lower_method (args_get args field (PStr [])) = Inr text"
    and res: "is_emergency inds text (args_get args ''associated_symptoms'' (PList [])) = Inr b"
  shows "b = keyword_policy inds args field"
proof -
  have tdef: "text = str_lower (free_text args field)"
    using tx by (auto simp: lower_method_Inr free_text_def args_get_def split: option.splits)
  have occ: "occurs_ignoring_case k t = str_in k (str_lower t)" if "k \<in> set inds" for k t
    using low that by (simp add: occurs_ignoring_case_def str_in_sublist)
  show ?thesis
  proof (cases "list_ex (\<lambda>k. str_in k text) inds")
    case True
    then have "b" using res by (simp add: is_emergency_def)
    moreover have "keyword_policy inds args field"
      using True occ tdef by (auto simp: keyword_policy_def list_ex_iff)
    ultimately show ?thesis by simp
  next
    case False
    then obtain vs where vs: "py_iter (args_get args ''associated_symptoms'' (PList [])) = Inr vs"
      and b: "any_symptom inds vs = Inr b"
      using res by (auto simp: is_emergency_def split: sum.splits)
    have "b = (\<exists>v\<in>set vs. \<exists>s. v = PStr s \<and> list_ex (\<lambda>k. str_in k (str_lower s)) inds)"
      using b by (rule any_symptom_Inr)
    also have "\<dots> = (\<exists>k\<in>set inds. \<exists>s\<in>set (symptom_texts args). occurs_ignoring_case k s)"
      using occ by (auto simp: set_symptom_texts [OF listed vs] list_ex_iff)
    also have "\<dots> = keyword_policy inds args field"
      using False occ tdef by (auto simp: keyword_policy_def list_ex_iff)
    finally show ?thesis .
  qed
qed

lemma chest_pain_indicators_lower: "\<forall>k\<in>set chest_pain_indicators. str_lower k = k"
proof -
  have "list_all (\<lambda>k. str_lower k = k) chest_pain_indicators" by code_simp
  then show ?thesis by (simp add: list_all_iff)
qed

lemma respiratory_indicators_lower: "\<forall>k\<in>set respiratory_indicators. str_lower k = k"
proof -
  have "list_all (\<lambda>k. str_lower k = k) respiratory_indicators" by code_simp
  then show ?thesis by (simp add: list_all_iff)
qed

lemma any_indicator_in_str:
  "any_indicator_in inds (PStr s) = Inr (list_ex (\<lambda>k. str_in k (str_lower s)) inds)"
  by (induction inds) (simp_all add: lower_method_def)

lemma any_symptom_strs:
  "list_all (has_type TString) vs \<Longrightarrow>
     any_symptom inds vs =
       Inr (list_ex (\<lambda>v. case v of PStr s \<Rightarrow> list_ex (\<lambda>k. str_in k (str_lower s)) inds | _ \<Rightarrow> False) vs)"
proof (induction vs)
  case Nil
  then show ?case by simp
next
  case (Cons v vs)
  then obtain s where "v = PStr s" by (auto split: pyval.splits)
  with Cons show ?case by (simp add: any_indicator_in_str)
qed

lemma is_emergency_total:
  assumes "case args ''associated_symptoms'' of None \<Rightarrow> True | Some v \<Rightarrow> has_type (TArray TString) v"
  shows "\<exists>b. is_emergency inds t (args_get args ''associated_symptoms'' (PList [])) = Inr b"
proof (cases "list_ex (\<lambda>k. str_in k t) inds")
  case True
  then have "is_emergency inds t (args_get args ''associated_symptoms'' (PList [])) = Inr True"
    by (simp add: is_emergency_def)
  then show ?thesis by blast
next
  case False
  show ?thesis
  proof (cases "args ''associated_symptoms''")
    case None
    with False have "is_emergency inds t (args_get args ''associated_symptoms'' (PList [])) = Inr False"
      by (simp add: is_emergency_def args_get_def py_iter_def)
    then show ?thesis by blast
  next
    case (Some v)
    with assms obtain vs where v: "v = PList vs" and vs: "list_all (has_type TString) vs"
      by (auto split: pyval.splits)
    show ?thesis
      using False Some v any_symptom_strs [OF vs, of inds]
      by (simp add: is_emergency_def args_get_def py_iter_def)
  qed
qed

lemma conforms_simps [simp]:
  "conforms [] args"
  "conforms ((k, t) # ps) args \<longleftrightarrow>
     (case args k of None \<Rightarrow> True | Some v \<Rightarrow> has_type t v) \<and> conforms ps args"
  by (simp_all add: conforms_def cong: option.case_cong)

lemma declared_chest_pain:
  "parameters (create_assessment_node ChestPainNode) =
     [(''pain_location'', TString), (''pain_quality'', TString), (''radiation'', TString),
      (''associated_symptoms'', TArray TString), (''severity'', TString),
      (''aggravating_factors'', TArray TString), (''relieving_factors'', TArray TString)]"
  by (simp add: parameters_def ChestPainNode_def)

lemma declared_respiratory:
  "parameters (create_assessment_node RespiratoryNode) =
     [(''breathing_difficulty'', TString), (''cough_type'', TString), (''cough_duration'', TString),
      (''sputum_presence'', TBoolean), (''sputum_description'', TString),
      (''associated_symptoms'', TArray TString)]"
  by (simp add: parameters_def RespiratoryNode_def)

lemma assess_chest_pain_total:
  assumes "conforms (declared_parameters Assess_chest_pain) args"
  shows "\<exists>d. assess_chest_pain args = Inr (PDict d)"
proof -
  from assms have sev: "case args ''severity'' of None \<Rightarrow> True | Some v \<Rightarrow> has_type TString v"
    and sym: "case args ''associated_symptoms'' of None \<Rightarrow> True | Some v \<Rightarrow> has_type (TArray TString) v"
    by (simp_all add: declared_chest_pain)
  from sev obtain lowered where t: "lower_method (args_get args ''severity'' (PStr [])) = Inr lowered"
    by (auto simp: lower_method_def args_get_def split: option.splits pyval.splits)
  from sym obtain b where
    "is_emergency chest_pain_indicators lowered (args_get args ''associated_symptoms'' (PList [])) = Inr b"
    using is_emergency_total [of args chest_pain_indicators lowered] by blast
  with t show ?thesis by (simp add: assess_chest_pain_def)
qed

lemma assess_respiratory_total:
  assumes "conforms (declared_parameters Assess_respiratory) args"
  shows "\<exists>d. assess_respiratory args = Inr (PDict d)"
proof -
  from assms have sev: "case args ''breathing_difficulty'' of None \<Rightarrow> True | Some v \<Rightarrow> has_type TString v"
    and sym: "case args ''associated_symptoms'' of None \<Rightarrow> True | Some v \<Rightarrow> has_type (TArray TString) v"
    by (simp_all add: declared_respiratory)
  from sev obtain lowered where t: "lower_method (args_get args ''breathing_difficulty'' (PStr [])) = Inr lowered"
    by (auto simp: lower_method_def args_get_def split: option.splits pyval.splits)
  from sym obtain b where
    "is_emergency respiratory_indicators lowered (args_get args ''associated_symptoms'' (PList [])) = Inr b"
    using is_emergency_total [of args respiratory_indicators lowered] by blast
  with t show ?thesis by (simp add: assess_respiratory_def)
qed

lemma assess_chest_pain_shape:
  assumes listed: "symptoms_listed args"
    and "assess_chest_pain args = Inr r"
  shows "\<exists>sev. lower_method (args_get args ''severity'' (PStr [])) = Inr sev \<and>
     r = PDict
       [(''status'', PStr ''success''),
        (''pain_location'', args_get args ''pain_location'' (PStr [])),
        (''pain_quality'', args_get args ''pain_quality'' (PStr [])),
        (''radiation'', args_get args ''radiation'' (PStr [])),
        (''associated_symptoms'', args_get args ''associated_symptoms'' (PList [])),
        (''severity'', PStr sev),
        (''aggravating_factors'', args_get args ''aggravating_factors'' (PList [])),
        (''relieving_factors'', args_get args ''relieving_factors'' (PList [])),
        (''requires_emergency_routing'', PBool (keyword_policy chest_pain_indicators args ''severity'')),
        (''emergency_reason'',
           if keyword_policy chest_pain_indicators args ''severity''
           then PStr ''Potential cardiac emergency detected'' else PNone)]"
proof -
  obtain sev where
    t: "lower_method (args_get args ''severity'' (PStr [])) = Inr sev"
    using assms by (cases "lower_method (args_get args ''severity'' (PStr []))")
      (simp_all add: assess_chest_pain_def)
  obtain b where
    b: "is_emergency chest_pain_indicators sev (args_get args ''associated_symptoms'' (PList [])) = Inr b"
    using assms t
    by (cases "is_emergency chest_pain_indicators sev (args_get args ''associated_symptoms'' (PList []))")
      (simp_all add: assess_chest_pain_def)
  have "b = keyword_policy chest_pain_indicators args ''severity''"
    using chest_pain_indicators_lower listed t b by (rule is_emergency_policy)
  then show ?thesis using assms t b by (simp add: assess_chest_pain_def)
qed

lemma assess_respiratory_shape:
  assumes listed: "symptoms_listed args"
    and "assess_respiratory args = Inr r"
  shows "\<exists>bd. lower_method (args_get args ''breathing_difficulty'' (PStr [])) = Inr bd \<and>
     r = PDict
       [(''status'', PStr ''success''),
        (''breathing_difficulty'', PStr bd),
        (''cough_type'', args_get args ''cough_type'' (PStr [])),
        (''cough_duration'', args_get args ''cough_duration'' (PStr [])),
        (''sputum_presence'', args_get args ''sputum_presence'' (PBool False)),
        (''sputum_description'', args_get args ''sputum_description'' (PStr [])),
        (''associated_symptoms'', args_get args ''associated_symptoms'' (PList [])),
        (''requires_emergency'', PBool (keyword_policy respiratory_indicators args ''breathing_difficulty'')),
        (''emergency_reason'',
           if keyword_policy respiratory_indicators args ''breathing_difficulty''
           then PStr ''Severe respiratory distress detected'' else PNone)]"
proof -
  obtain bd where
    t: "lower_method (args_get args ''breathing_difficulty'' (PStr [])) = Inr bd"
    using assms by (cases "lower_method (args_get args ''breathing_difficulty'' (PStr []))")
      (simp_all add: assess_respiratory_def)
  obtain b where
    b: "is_emergency respiratory_indicators bd (args_get args ''associated_symptoms'' (PList [])) = Inr b"
    using assms t
    by (cases "is_emergency respiratory_indicators bd (args_get args ''associated_symptoms'' (PList []))")
      (simp_all add: assess_respiratory_def)
  have "b = keyword_policy respiratory_indicators args ''breathing_difficulty''"
    using respiratory_indicators_lower listed t b by (rule is_emergency_policy)
  then show ?thesis using assms t b by (simp add: assess_respiratory_def)
qed






section \<open>The registry match\<close>

lemma first_triggered_find:
  "first_triggered cl cs = find (\<lambda>c. \<exists>p\<in>set (get_trigger_phrases c). sublist p cl) cs"
  by (induction cs) (simp_all add: list_ex_iff str_in_sublist)

text \<open>
  C3, as the code has it. For every complaint text and every registry, the match
  lower-cases the complaint and returns the first registered class one of whose trigger
  phrases, taken as registered, occurs in the lower-cased complaint, and nothing when
  no class has such a phrase. When all registered phrases are lower-case, as those of the
  repository's two specialties are, this is the case-insensitive first-registered match
  of the specification.
\<close>

theorem match_first_registered:
  "get_node_for_complaint flows (PStr complaint) =
     Inr (find (phrase_in_lowered complaint) (map snd flows))
   \<and> ((\<forall>flow_class\<in>set (map snd flows). \<forall>phrase\<in>set (get_trigger_phrases flow_class).
          str_lower phrase = phrase) \<longrightarrow>
        get_node_for_complaint flows (PStr complaint) = Inr (match_spec flows complaint))"
proof -
  have code: "get_node_for_complaint flows (PStr complaint) =
     Inr (find (phrase_in_lowered complaint) (map snd flows))"
    by (simp add: get_node_for_complaint_def lower_method_def first_triggered_find
        phrase_in_lowered_def [abs_def])
  have "find (phrase_in_lowered complaint) (map snd flows) = match_spec flows complaint"
    if "\<forall>flow_class\<in>set (map snd flows). \<forall>phrase\<in>set (get_trigger_phrases flow_class).
          str_lower phrase = phrase"
    unfolding match_spec_def
    by (rule find_cong)
      (use that in \<open>auto simp: phrase_in_lowered_def triggered_ignoring_case_def occurs_ignoring_case_def\<close>)
  with code show ?thesis by simp
qed

theorem match_first_registered_witness:
  "get_node_for_complaint [(''RespiratoryNode'', RespiratoryNode), (''ChestPainNode'', ChestPainNode)]
     (PStr ''Chest pain and a COUGH'') = Inr (Some RespiratoryNode)
   \<and> match_spec [(''RespiratoryNode'', RespiratoryNode), (''ChestPainNode'', ChestPainNode)]
     ''Chest pain and a COUGH'' = Some RespiratoryNode
   \<and> get_node_for_complaint [(''RespiratoryNode'', RespiratoryNode), (''ChestPainNode'', ChestPainNode)]
     (PStr ''headache'') = Inr None"
proof -
  let ?f = "[(''RespiratoryNode'', RespiratoryNode), (''ChestPainNode'', ChestPainNode)]"
  have low: "\<forall>flow_class\<in>set (map snd ?f). \<forall>phrase\<in>set (get_trigger_phrases flow_class).
          str_lower phrase = phrase"
  proof -
    have "list_all (\<lambda>c. list_all (\<lambda>p. str_lower p = p) (get_trigger_phrases c)) (map snd ?f)"
      by code_simp
    then show ?thesis by (simp add: list_all_iff)
  qed
  have a: "get_node_for_complaint ?f (PStr ''Chest pain and a COUGH'') = Inr (Some RespiratoryNode)"
    by code_simp
  have b: "get_node_for_complaint ?f (PStr ''headache'') = Inr None"
    by code_simp
  from low match_first_registered [of ?f "''Chest pain and a COUGH''"] a
  have "match_spec ?f ''Chest pain and a COUGH'' = Some RespiratoryNode" by simp
  with a b show ?thesis by simp
qed

text \<open>The claim as stated fails for a registry whose phrase has a capital letter: the
  complaint \<open>Chest Pain\<close> contains the registered phrase \<open>Chest Pain\<close> and the code matches
  nothing.\<close>

theorem match_uppercase_phrase_counterexample:
  "get_node_for_complaint
     [(''ChestPainNode'', ChestPainNode\<lparr>get_trigger_phrases := [''Chest Pain'']\<rparr>)] (PStr ''Chest Pain'')
     = Inr None
   \<and> match_spec
     [(''ChestPainNode'', ChestPainNode\<lparr>get_trigger_phrases := [''Chest Pain'']\<rparr>)] ''Chest Pain''
     = Some (ChestPainNode\<lparr>get_trigger_phrases := [''Chest Pain'']\<rparr>)"
proof -
  have "get_node_for_complaint
     [(''ChestPainNode'', ChestPainNode\<lparr>get_trigger_phrases := [''Chest Pain'']\<rparr>)] (PStr ''Chest Pain'')
     = Inr None"
    by code_simp
  then show ?thesis
    by (simp add: match_spec_def triggered_ignoring_case_def occurs_ignoring_case_def)
qed

section \<open>The specialty assessment callbacks\<close>

lemma respiratory_callback_routes:
  assumes "symptoms_listed args" and "assess_respiratory args = Inr result"
  shows "\<exists>bd. lower_method (args_get args ''breathing_difficulty'' (PStr [])) = Inr bd \<and>
    handle_respiratory_assessment args result fm =
      (None, set_node (if keyword_policy respiratory_indicators args ''breathing_difficulty''
                       then ''emergency'' else ''medical_history'')
                      (if keyword_policy respiratory_indicators args ''breathing_difficulty''
                       then create_emergency_node (PStr ''Severe respiratory distress detected'')
                       else create_medical_history_node)
                      (fm\<lparr>state := (state fm)(''respiratory_assessment'' \<mapsto> PDict
                         [(''breathing_difficulty'', PStr bd),
                          (''cough_type'', args_get args ''cough_type'' (PStr [])),
                          (''cough_duration'', args_get args ''cough_duration'' (PStr [])),
                          (''sputum_presence'', args_get args ''sputum_presence'' (PBool False)),
                          (''sputum_description'', args_get args ''sputum_description'' (PStr [])),
                          (''associated_symptoms'', args_get args ''associated_symptoms'' (PList []))])\<rparr>))"
proof -
  from assess_respiratory_shape [OF assms] obtain bd where
    t: "lower_method (args_get args ''breathing_difficulty'' (PStr [])) = Inr bd"
    and r: "result = PDict
       [(''status'', PStr ''success''),
        (''breathing_difficulty'', PStr bd),
        (''cough_type'', args_get args ''cough_type'' (PStr [])),
        (''cough_duration'', args_get args ''cough_duration'' (PStr [])),
        (''sputum_presence'', args_get args ''sputum_presence'' (PBool False)),
        (''sputum_description'', args_get args ''sputum_description'' (PStr [])),
        (''associated_symptoms'', args_get args ''associated_symptoms'' (PList [])),
        (''requires_emergency'', PBool (keyword_policy respiratory_indicators args ''breathing_difficulty'')),
        (''emergency_reason'',
           if keyword_policy respiratory_indicators args ''breathing_difficulty''
           then PStr ''Severe respiratory distress detected'' else PNone)]"
    by blast
  have "handle_respiratory_assessment args result fm =
      (None, set_node (if keyword_policy respiratory_indicators args ''breathing_difficulty''
                       then ''emergency'' else ''medical_history'')
                      (if keyword_policy respiratory_indicators args ''breathing_difficulty''
                       then create_emergency_node (PStr ''Severe respiratory distress detected'')
                       else create_medical_history_node)
                      (fm\<lparr>state := (state fm)(''respiratory_assessment'' \<mapsto> PDict
                         [(''breathing_difficulty'', PStr bd),
                          (''cough_type'', args_get args ''cough_type'' (PStr [])),
                          (''cough_duration'', args_get args ''cough_duration'' (PStr [])),
                          (''sputum_presence'', args_get args ''sputum_presence'' (PBool False)),
                          (''sputum_description'', args_get args ''sputum_description'' (PStr [])),
                          (''associated_symptoms'', args_get args ''associated_symptoms'' (PList []))])\<rparr>))"
    unfolding r by (simp add: handle_respiratory_assessment_def subscript_def)
  with t show ?thesis by blast
qed

text \<open>
  C1, at the chest pain callback. Whatever result \<open>handle_chest_pain_assessment\<close> is
  given, it raises \<open>AttributeError\<close> while it builds the record to store: nothing is
  written to the session state and no node is installed, neither the emergency node nor
  the medical history node. The respiratory callback, which subscripts the result, does
  what the claim says (\<open>respiratory_callback_routes\<close>).
\<close>

theorem chest_pain_callback_raises:
  "handle_chest_pain_assessment args result fm = (Some AttributeError, fm)"
  by (simp add: handle_chest_pain_assessment_def py_getattr_def)

section \<open>Missing fields\<close>

lemma parameters_simps:
  "parameters create_entry_node = [(''consent'', TBoolean)]"
  "parameters create_chief_complaint_node = [(''complaint'', TString), (''duration'', TString)]"
  "parameters create_medical_history_node =
     [(''conditions'', TArray TString),
      (''medications'', TArray (TObject [(''name'', TString), (''dosage'', TString), (''frequency'', TString)])),
      (''allergies'', TArray TString), (''surgeries'', TArray TString)]"
  "parameters (create_emergency_node reason) = [(''emergency_reason'', TString)]"
  by (simp_all add: parameters_def create_entry_node_def create_chief_complaint_node_def
      create_medical_history_node_def create_emergency_node_def)

lemma lower_method_missing:
  "args k = None \<Longrightarrow> lower_method (args_get args k (PStr [])) = Inr s \<Longrightarrow> s = []"
  by (simp add: args_get_def lower_method_def)

text \<open>
  C8, as the code has it. When every supplied field has its declared type, each handler
  returns a result (it does not raise), and every declared field that is missing holds
  its default in the result: the empty string, the empty list or false, except that the
  emergency handlers put the text \<open>Unspecified emergency\<close> for a missing reason.
\<close>

theorem missing_fields_default:
  assumes "conforms (declared_parameters h) args"
  shows "\<exists>d. run_handler h now args = Inr (PDict d) \<and>
     (\<forall>p\<in>set (declared_parameters h).
        args (fst p) = None \<longrightarrow> map_of d (result_key h (fst p)) = Some (default_of h (snd p)))"
proof (cases h)
  case Verify_consent
  with assms show ?thesis
    by (auto simp: parameters_simps verify_consent_def consent_result_def args_get_def
        result_key_def default_of_def split: option.splits pyval.splits)
next
  case Collect_chief_complaint
  then show ?thesis
    by (simp add: parameters_simps collect_chief_complaint_def args_get_def result_key_def default_of_def)
next
  case Collect_medical_history
  then show ?thesis
    by (simp add: parameters_simps collect_medical_history_def args_get_def result_key_def default_of_def)
next
  case Handle_emergency
  then show ?thesis
    by (simp add: parameters_simps handle_emergency_def args_get_def result_key_def default_of_def)
next
  case Shared_handle_emergency
  then show ?thesis
    by (simp add: parameters_simps shared_handle_emergency_def args_get_def result_key_def default_of_def)
next
  case Assess_chest_pain
  with assms obtain d where d: "assess_chest_pain args = Inr (PDict d)"
    using assess_chest_pain_total by blast
  from Assess_chest_pain assms have "symptoms_listed args"
    by (simp add: declared_chest_pain conforms_symptoms_listed)
  from assess_chest_pain_shape [OF this d] obtain sev where
    t: "lower_method (args_get args ''severity'' (PStr [])) = Inr sev"
    and r: "d =
       [(''status'', PStr ''success''),
        (''pain_location'', args_get args ''pain_location'' (PStr [])),
        (''pain_quality'', args_get args ''pain_quality'' (PStr [])),
        (''radiation'', args_get args ''radiation'' (PStr [])),
        (''associated_symptoms'', args_get args ''associated_symptoms'' (PList [])),
        (''severity'', PStr sev),
        (''aggravating_factors'', args_get args ''aggravating_factors'' (PList [])),
        (''relieving_factors'', args_get args ''relieving_factors'' (PList [])),
        (''requires_emergency_routing'', PBool (keyword_policy chest_pain_indicators args ''severity'')),
        (''emergency_reason'',
           if keyword_policy chest_pain_indicators args ''severity''
           then PStr ''Potential cardiac emergency detected'' else PNone)]"
    by auto
  have "\<forall>p\<in>set (declared_parameters Assess_chest_pain).
        args (fst p) = None \<longrightarrow>
          map_of d (result_key Assess_chest_pain (fst p)) = Some (default_of Assess_chest_pain (snd p))"
    unfolding r using lower_method_missing [OF _ t]
    by (simp add: declared_chest_pain args_get_def result_key_def default_of_def)
  with d Assess_chest_pain show ?thesis by simp
next
  case Assess_respiratory
  with assms obtain d where d: "assess_respiratory args = Inr (PDict d)"
    using assess_respiratory_total by blast
  from Assess_respiratory assms have "symptoms_listed args"
    by (simp add: declared_respiratory conforms_symptoms_listed)
  from assess_respiratory_shape [OF this d] obtain bd where
    t: "lower_method (args_get args ''breathing_difficulty'' (PStr [])) = Inr bd"
    and r: "d =
       [(''status'', PStr ''success''),
        (''breathing_difficulty'', PStr bd),
        (''cough_type'', args_get args ''cough_type'' (PStr [])),
        (''cough_duration'', args_get args ''cough_duration'' (PStr [])),
        (''sputum_presence'', args_get args ''sputum_presence'' (PBool False)),
        (''sputum_description'', args_get args ''sputum_description'' (PStr [])),
        (''associated_symptoms'', args_get args ''associated_symptoms'' (PList [])),
        (''requires_emergency'', PBool (keyword_policy respiratory_indicators args ''breathing_difficulty'')),
        (''emergency_reason'',
           if keyword_policy respiratory_indicators args ''breathing_difficulty''
           then PStr ''Severe respiratory distress detected'' else PNone)]"
    by auto
  have "\<forall>p\<in>set (declared_parameters Assess_respiratory).
        args (fst p) = None \<longrightarrow>
          map_of d (result_key Assess_respiratory (fst p)) = Some (default_of Assess_respiratory (snd p))"
    unfolding r using lower_method_missing [OF _ t]
    by (simp add: declared_respiratory args_get_def result_key_def default_of_def)
  with d Assess_respiratory show ?thesis by simp
qed

theorem missing_fields_default_witness:
  "conforms (declared_parameters Assess_respiratory) [''cough_type'' \<mapsto> PStr ''dry'']
   \<and> (\<exists>d. run_handler Assess_respiratory [] [''cough_type'' \<mapsto> PStr ''dry''] = Inr (PDict d)
          \<and> map_of d ''breathing_difficulty'' = Some (PStr [])
          \<and> map_of d ''sputum_presence'' = Some (PBool False)
          \<and> map_of d ''associated_symptoms'' = Some (PList []))"
proof -
  have c: "conforms (declared_parameters Assess_respiratory) [''cough_type'' \<mapsto> PStr ''dry'']"
    by (simp add: declared_respiratory)
  from missing_fields_default [OF c, of "[]"] c show ?thesis
    by (auto simp: declared_respiratory result_key_def default_of_def)
qed

text \<open>The claim as stated fails at the emergency handler called with no arguments: the
  missing reason is not the empty string.\<close>

theorem emergency_default_counterexample:
  "conforms (declared_parameters Handle_emergency) Map.empty
   \<and> run_handler Handle_emergency [] Map.empty =
       Inr (PDict [(''status'', PStr ''success''),
                   (''emergency_reason'', PStr ''Unspecified emergency'')])
   \<and> PStr ''Unspecified emergency'' \<noteq> safe_default TString"
  by (simp add: parameters_simps handle_emergency_def args_get_def)

section \<open>The chief complaint transition\<close>

lemma collect_chest_pain_complaint:
  "collect_chief_complaint [''complaint'' \<mapsto> PStr ''I have chest pain'', ''duration'' \<mapsto> PStr ''2 days'']
     = Inr chest_pain_result"
  by (simp add: collect_chief_complaint_def args_get_def chest_pain_result_def)

text \<open>
  C9, on the registry as the program has it. \<open>NodeRegistry._flows\<close> starts empty and the
  only registrations in the repository are the decorators \<^verbatim>\<open>@FlowRegistry.register\<close> of
  chest\_pain.py and respiratory.py, a name registry.py does not define, in modules
  nothing imports. So the complaint \<open>I have chest pain\<close> of two days matches no specialty
  and the callback installs the medical history node, not the chest pain pair.
\<close>

theorem chest_pain_complaint_unregistered:
  "collect_chief_complaint [''complaint'' \<mapsto> PStr ''I have chest pain'', ''duration'' \<mapsto> PStr ''2 days'']
     = Inr chest_pain_result
   \<and> get_node_for_complaint NodeRegistry_flows (PStr ''I have chest pain'') = Inr None
   \<and> map fst (installed (snd (handle_complaint_transition NodeRegistry_flows
        [''complaint'' \<mapsto> PStr ''I have chest pain'', ''duration'' \<mapsto> PStr ''2 days'']
        chest_pain_result session_start)))
      = [''initial'', ''medical_history'']"
  by (simp add: collect_chest_pain_complaint)
    (simp add: chest_pain_result_def handle_complaint_transition_def subscript_def
      get_node_for_complaint_def lower_method_def NodeRegistry_flows_def set_node_def session_start_def)

text \<open>With both specialties registered, in either order, the transition is what the
  claim describes.\<close>

lemma lower_class_names:
  "str_lower ''ChestPainNode'' = ''chestpainnode''"
  "str_lower ''RespiratoryNode'' = ''respiratorynode''"
  by code_simp+

lemma complaint_transition_when_registered:
  assumes "flows = register RespiratoryNode (register ChestPainNode NodeRegistry_flows)
           \<or> flows = register ChestPainNode (register RespiratoryNode NodeRegistry_flows)"
  shows "handle_complaint_transition flows args chest_pain_result fm =
     (None, fm\<lparr>state := (state fm)(''chief_complaint'' \<mapsto>
                   PDict [(''complaint'', PStr ''I have chest pain''), (''duration'', PStr ''2 days'')]),
               installed := installed fm @
                 [(''chestpainnode_intro'',
                     create_transition_node ChestPainNode
                       (transition_message (PStr ''I have chest pain'') (PStr ''2 days''))),
                  (''chestpainnode_assessment'', create_assessment_node ChestPainNode)]\<rparr>)"
    and "sublist ''chest pain'' (transition_message (PStr ''I have chest pain'') (PStr ''2 days''))"
    and "sublist ''2 days'' (transition_message (PStr ''I have chest pain'') (PStr ''2 days''))"
proof -
  have a: "get_node_for_complaint (register RespiratoryNode (register ChestPainNode NodeRegistry_flows))
      (PStr ''I have chest pain'') = Inr (Some ChestPainNode)"
    by code_simp
  have b: "get_node_for_complaint (register ChestPainNode (register RespiratoryNode NodeRegistry_flows))
      (PStr ''I have chest pain'') = Inr (Some ChestPainNode)"
    by code_simp
  have m: "get_node_for_complaint flows (PStr ''I have chest pain'') = Inr (Some ChestPainNode)"
    using assms a b by auto
  have n: "class_name ChestPainNode = ''ChestPainNode''" by (simp add: ChestPainNode_def)
  show "handle_complaint_transition flows args chest_pain_result fm =
     (None, fm\<lparr>state := (state fm)(''chief_complaint'' \<mapsto>
                   PDict [(''complaint'', PStr ''I have chest pain''), (''duration'', PStr ''2 days'')]),
               installed := installed fm @
                 [(''chestpainnode_intro'',
                     create_transition_node ChestPainNode
                       (transition_message (PStr ''I have chest pain'') (PStr ''2 days''))),
                  (''chestpainnode_assessment'', create_assessment_node ChestPainNode)]\<rparr>)"
    by (simp add: handle_complaint_transition_def chest_pain_result_def subscript_def m
        setup_specialty_def set_node_def n lower_class_names del: str_lower_simps)
  have "transition_message (PStr ''I have chest pain'') (PStr ''2 days'') =
      ''I understand you've been experiencing I have '' @ ''chest pain'' @
      ('' for 2 days. I'd like to ask a few more specific questions about this to help the doctor better prepare for your appointment.'')"
    by (simp add: transition_message_def py_str_def)
  then show "sublist ''chest pain'' (transition_message (PStr ''I have chest pain'') (PStr ''2 days''))"
    by (simp only: sublist_appendI)
  have "transition_message (PStr ''I have chest pain'') (PStr ''2 days'') =
      ''I understand you've been experiencing I have chest pain for '' @ ''2 days'' @
      (''. I'd like to ask a few more specific questions about this to help the doctor better prepare for your appointment.'')"
    by (simp add: transition_message_def py_str_def)
  then show "sublist ''2 days'' (transition_message (PStr ''I have chest pain'') (PStr ''2 days''))"
    by (simp only: sublist_appendI)
qed

section \<open>The session path\<close>

lemma active_set_node [simp]: "active (set_node name n fm) = Some (name, n)"
  by (simp add: active_def set_node_def)

lemma installed_set_node [simp]: "installed (set_node name n fm) = installed fm @ [(name, n)]"
  by (simp add: set_node_def)

lemma installed_state_update [simp]: "installed (fm\<lparr>state := s\<rparr>) = installed fm"
  by simp

lemma node_functions_simps:
  "node_functions create_entry_node =
     [\<lparr>fn_name = ''process_consent'', handler = Some Verify_consent,
       description = ''Process patient consent'', properties = [(''consent'', TBoolean)],
       required = [''consent''], transition_callback = Some Handle_consent_transition,
       transition_to = None\<rparr>]"
  "node_functions create_chief_complaint_node =
     [\<lparr>fn_name = ''collect_chief_complaint'', handler = Some Collect_chief_complaint,
       description = ''Collect chief complaint information'',
       properties = [(''complaint'', TString), (''duration'', TString)],
       required = [''complaint'', ''duration''],
       transition_callback = Some Handle_complaint_transition, transition_to = None\<rparr>]"
  "node_functions create_wrap_up_node =
     [\<lparr>fn_name = ''finish_conversation'', handler = None, description = ''End the conversation'',
       properties = [], required = [], transition_callback = Some Handle_wrap_up_transition,
       transition_to = None\<rparr>]"
  "node_functions (create_end_call_node message) = []"
  by (simp_all add: create_entry_node_def create_chief_complaint_node_def create_wrap_up_node_def
      create_end_call_node_def)

lemma consent_adds:
  "adds fm (snd (handle_consent_transition args r fm)) [] \<or>
   adds fm (snd (handle_consent_transition args r fm)) [(''chief_complaint'', create_chief_complaint_node)] \<or>
   adds fm (snd (handle_consent_transition args r fm)) [(''end_call'', create_end_call_node decline_message)]"
  by (simp add: handle_consent_transition_def adds_def decline_message_def split: sum.splits)

lemma first_triggered_mem: "first_triggered cl cs = Some c \<Longrightarrow> c \<in> set cs"
  by (induction cs) (auto split: if_splits)

lemma complaint_adds:
  "adds fm (snd (handle_complaint_transition flows args r fm)) [] \<or>
   adds fm (snd (handle_complaint_transition flows args r fm)) [(''medical_history'', create_medical_history_node)] \<or>
   (\<exists>c\<in>set (map snd flows). \<exists>m.
      adds fm (snd (handle_complaint_transition flows args r fm))
        [(str_lower (class_name c) @ ''_intro'', create_transition_node c m),
         (str_lower (class_name c) @ ''_assessment'', create_assessment_node c)])"
proof (cases "dict_display [(''complaint'', subscript r ''complaint''), (''duration'', subscript r ''duration'')]")
  case (Inl e)
  then show ?thesis by (simp add: handle_complaint_transition_def adds_def)
next
  case (Inr d)
  show ?thesis
  proof (cases "subscript r ''complaint''")
    case (Inl e)
    with Inr show ?thesis by (simp add: handle_complaint_transition_def adds_def)
  next
    case c: (Inr complaint)
    show ?thesis
    proof (cases "get_node_for_complaint flows complaint")
      case (Inl e)
      with Inr c show ?thesis by (simp add: handle_complaint_transition_def adds_def)
    next
      case m: (Inr found)
      show ?thesis
      proof (cases found)
        case None
        with Inr c m show ?thesis by (simp add: handle_complaint_transition_def adds_def)
      next
        case (Some flow)
        with m have mem: "flow \<in> set (map snd flows)"
          by (auto simp: get_node_for_complaint_def split: sum.splits dest: first_triggered_mem)
        show ?thesis
        proof (cases "subscript r ''duration''")
          case (Inl e)
          with Inr c m Some show ?thesis by (simp add: handle_complaint_transition_def adds_def)
        next
          case d: (Inr duration)
          have "adds fm (snd (handle_complaint_transition flows args r fm))
            [(str_lower (class_name flow) @ ''_intro'',
                create_transition_node flow (transition_message complaint duration)),
             (str_lower (class_name flow) @ ''_assessment'', create_assessment_node flow)]"
            using Inr c m Some d
            by (simp add: handle_complaint_transition_def adds_def setup_specialty_def)
          with mem show ?thesis by blast
        qed
      qed
    qed
  qed
qed

lemma medical_history_adds:
  "adds fm (snd (handle_medical_history_transition args r fm)) [] \<or>
   adds fm (snd (handle_medical_history_transition args r fm)) [(''wrap_up'', create_wrap_up_node)]"
  by (simp add: handle_medical_history_transition_def adds_def split: sum.splits)

lemma wrap_up_adds:
  "\<exists>m. adds fm (snd (handle_wrap_up_transition args r fm)) [(''end_call'', create_end_call_node m)]"
  by (rule exI [of _ "''Thank you for your time. Goodbye!''"])
    (simp add: handle_wrap_up_transition_def adds_def)

lemma emergency_adds:
  "adds fm (snd (handle_emergency_transition now args r fm)) [] \<or>
   (\<exists>m. adds fm (snd (handle_emergency_transition now args r fm)) [(''end_call'', create_end_call_node m)])"
proof (cases "get_method r ''emergency_reason''")
  case (Inl e)
  then show ?thesis by (simp add: handle_emergency_transition_def adds_def)
next
  case (Inr v)
  then have "adds fm (snd (handle_emergency_transition now args r fm))
      [(''end_call'', create_end_call_node
          ''Please stay on the line while I transfer you to our medical staff.'')]"
    by (simp add: handle_emergency_transition_def adds_def)
  then show ?thesis by blast
qed

lemma chest_pain_adds:
  "adds fm (snd (handle_chest_pain_assessment args r fm)) []"
  by (simp add: handle_chest_pain_assessment_def py_getattr_def adds_def)

lemma respiratory_adds:
  "adds fm (snd (handle_respiratory_assessment args r fm)) [] \<or>
   (\<exists>reason. adds fm (snd (handle_respiratory_assessment args r fm)) [(''emergency'', create_emergency_node reason)]) \<or>
   adds fm (snd (handle_respiratory_assessment args r fm)) [(''medical_history'', create_medical_history_node)]"
proof (cases "dict_display
        [(''breathing_difficulty'', subscript r ''breathing_difficulty''),
         (''cough_type'', subscript r ''cough_type''),
         (''cough_duration'', subscript r ''cough_duration''),
         (''sputum_presence'', subscript r ''sputum_presence''),
         (''sputum_description'', subscript r ''sputum_description''),
         (''associated_symptoms'', subscript r ''associated_symptoms'')]")
  case (Inl e)
  then show ?thesis by (simp add: handle_respiratory_assessment_def adds_def)
next
  case (Inr d)
  then show ?thesis
    by (auto simp: handle_respiratory_assessment_def adds_def Let_def split: sum.splits)
qed

lemma adds_refl [simp]: "adds fm fm []"
  by (simp add: adds_def)

lemma more_node_functions:
  "node_functions create_medical_history_node =
     [\<lparr>fn_name = ''collect_medical_history'', handler = Some Collect_medical_history,
       description = ''Collect patient's medical history'',
       properties =
         [(''conditions'', TArray TString),
          (''medications'', TArray (TObject [(''name'', TString), (''dosage'', TString), (''frequency'', TString)])),
          (''allergies'', TArray TString), (''surgeries'', TArray TString)],
       required = [''conditions'', ''medications'', ''allergies''],
       transition_callback = Some Handle_medical_history_transition, transition_to = None\<rparr>]"
  "node_functions (create_emergency_node reason) =
     [\<lparr>fn_name = ''handle_emergency'', handler = Some Handle_emergency,
       description = ''Handle emergency routing'', properties = [(''emergency_reason'', TString)],
       required = [], transition_callback = Some Handle_emergency_transition,
       transition_to = None\<rparr>]"
  by (simp_all add: create_medical_history_node_def create_emergency_node_def)

lemma assessment_functions:
  "map (\<lambda>f. (fn_name f, handler f, transition_callback f)) (node_functions (create_assessment_node ChestPainNode))
     = [(''assess_chest_pain'', Some Assess_chest_pain, Some Handle_chest_pain_assessment)]"
  "map (\<lambda>f. (fn_name f, handler f, transition_callback f)) (node_functions (create_assessment_node RespiratoryNode))
     = [(''assess_respiratory'', Some Assess_respiratory, Some Handle_respiratory_assessment)]"
  by (simp_all add: ChestPainNode_def RespiratoryNode_def)

text \<open>A call served at a node with one function.\<close>

lemma step_single:
  assumes "active fm = Some (name, n)" and "node_functions n = [f]"
  shows "step flows c fm =
     (if fn_name f = called c then call_function flows f c fm else (None, fm))"
  using assms by (simp add: step_def)

lemma step_none:
  assumes "active fm = Some (name, n)" and "node_functions n = []"
  shows "step flows c fm = (None, fm)"
  using assms by (simp add: step_def)

lemma call_function_cases:
  assumes "handler f = Some h" and "transition_callback f = Some cb"
  shows "call_function flows f c fm =
     (case run_handler h (clock c) (raw_args c) of
        Inl e \<Rightarrow> (Some e, fm)
      | Inr r \<Rightarrow> run_callback cb flows (clock c) (raw_args c) r fm)"
  using assms by (simp add: call_function_def split: sum.splits)

lemma step_entry:
  assumes "active fm = Some (''initial'', create_entry_node)"
  shows "adds fm (snd (step flows c fm)) [] \<or>
    adds fm (snd (step flows c fm)) [(''chief_complaint'', create_chief_complaint_node)] \<or>
    adds fm (snd (step flows c fm)) [(''end_call'', create_end_call_node decline_message)]"
proof -
  let ?f = "\<lparr>fn_name = ''process_consent'', handler = Some Verify_consent,
       description = ''Process patient consent'', properties = [(''consent'', TBoolean)],
       required = [''consent''], transition_callback = Some Handle_consent_transition,
       transition_to = None\<rparr>"
  have s: "step flows c fm =
     (if fn_name ?f = called c then call_function flows ?f c fm else (None, fm))"
    using assms by (rule step_single) (simp add: node_functions_simps)
  show ?thesis
  proof (cases "verify_consent (raw_args c)")
    case (Inl e)
    then show ?thesis by (simp add: s call_function_def)
  next
    case (Inr r)
    then show ?thesis
      using consent_adds [of fm "raw_args c" r] by (auto simp: s call_function_def)
  qed
qed

lemma step_chief:
  assumes "active fm = Some (''chief_complaint'', create_chief_complaint_node)"
  shows "adds fm (snd (step flows c fm)) [] \<or>
    adds fm (snd (step flows c fm)) [(''medical_history'', create_medical_history_node)] \<or>
    (\<exists>k\<in>set (map snd flows). \<exists>m.
      adds fm (snd (step flows c fm))
        [(str_lower (class_name k) @ ''_intro'', create_transition_node k m),
         (str_lower (class_name k) @ ''_assessment'', create_assessment_node k)])"
proof -
  let ?f = "\<lparr>fn_name = ''collect_chief_complaint'', handler = Some Collect_chief_complaint,
       description = ''Collect chief complaint information'',
       properties = [(''complaint'', TString), (''duration'', TString)],
       required = [''complaint'', ''duration''],
       transition_callback = Some Handle_complaint_transition, transition_to = None\<rparr>"
  have s: "step flows c fm =
     (if fn_name ?f = called c then call_function flows ?f c fm else (None, fm))"
    using assms by (rule step_single) (simp add: node_functions_simps)
  show ?thesis
  proof (cases "fn_name ?f = called c")
    case False
    then show ?thesis by (simp add: s)
  next
    case True
    obtain r where r: "collect_chief_complaint (raw_args c) = Inr r"
      by (simp add: collect_chief_complaint_def)
    have "snd (step flows c fm) = snd (handle_complaint_transition flows (raw_args c) r fm)"
      using True r by (simp add: s call_function_def)
    then show ?thesis using complaint_adds [of fm flows "raw_args c" r] by simp
  qed
qed

lemma step_medical_history:
  assumes "active fm = Some (''medical_history'', create_medical_history_node)"
  shows "adds fm (snd (step flows c fm)) [] \<or>
    adds fm (snd (step flows c fm)) [(''wrap_up'', create_wrap_up_node)]"
proof -
  obtain f where f: "node_functions create_medical_history_node = [f]"
    and h: "fn_name f = ''collect_medical_history''" "handler f = Some Collect_medical_history"
      "transition_callback f = Some Handle_medical_history_transition"
    by (simp add: more_node_functions)
  have s: "step flows c fm =
     (if fn_name f = called c then call_function flows f c fm else (None, fm))"
    using assms f by (rule step_single)
  obtain r where r: "collect_medical_history (raw_args c) = Inr r"
    by (simp add: collect_medical_history_def)
  show ?thesis
    using medical_history_adds [of fm "raw_args c" r] r
    by (auto simp: s call_function_cases [OF h(2,3)])
qed

lemma step_wrap_up:
  assumes "active fm = Some (''wrap_up'', create_wrap_up_node)"
  shows "adds fm (snd (step flows c fm)) [] \<or>
    (\<exists>m. adds fm (snd (step flows c fm)) [(''end_call'', create_end_call_node m)])"
proof -
  let ?f = "\<lparr>fn_name = ''finish_conversation'', handler = None, description = ''End the conversation'',
       properties = [], required = [], transition_callback = Some Handle_wrap_up_transition,
       transition_to = None\<rparr>"
  have s: "step flows c fm =
     (if fn_name ?f = called c then call_function flows ?f c fm else (None, fm))"
    using assms by (rule step_single) (simp add: node_functions_simps)
  show ?thesis
    using wrap_up_adds [of fm "raw_args c" "PDict [(''status'', PStr ''acknowledged'')]"]
    by (auto simp: s call_function_def)
qed

lemma step_emergency:
  assumes "active fm = Some (''emergency'', create_emergency_node reason)"
  shows "adds fm (snd (step flows c fm)) [] \<or>
    (\<exists>m. adds fm (snd (step flows c fm)) [(''end_call'', create_end_call_node m)])"
proof -
  obtain f where f: "node_functions (create_emergency_node reason) = [f]"
    and h: "handler f = Some Handle_emergency"
      "transition_callback f = Some Handle_emergency_transition"
    by (simp add: more_node_functions)
  have s: "step flows c fm =
     (if fn_name f = called c then call_function flows f c fm else (None, fm))"
    using assms f by (rule step_single)
  obtain r where r: "handle_emergency (raw_args c) = Inr r"
    by (simp add: handle_emergency_def)
  show ?thesis
    using emergency_adds [of fm "clock c" "raw_args c" r] r
    by (auto simp: s call_function_cases [OF h])
qed

lemma step_end_call:
  assumes "active fm = Some (''end_call'', create_end_call_node m)"
  shows "snd (step flows c fm) = fm"
  using step_none [OF assms] by (simp add: node_functions_simps)

lemma single_function:
  assumes "map (\<lambda>f. (fn_name f, handler f, transition_callback f)) fs = [(a, h, cb)]"
  obtains f where "fs = [f]" "fn_name f = a" "handler f = h" "transition_callback f = cb"
  using assms by (cases fs) auto

lemma step_chest_pain:
  assumes "active fm = Some (''chestpainnode_assessment'', create_assessment_node ChestPainNode)"
  shows "adds fm (snd (step flows c fm)) []"
proof -
  from assessment_functions(1) obtain f where
    f: "node_functions (create_assessment_node ChestPainNode) = [f]"
    and h: "handler f = Some Assess_chest_pain"
      "transition_callback f = Some Handle_chest_pain_assessment"
    by (rule single_function)
  have s: "step flows c fm =
     (if fn_name f = called c then call_function flows f c fm else (None, fm))"
    using assms f by (rule step_single)
  show ?thesis
    using chest_pain_adds [of fm "raw_args c"]
    by (auto simp: s call_function_cases [OF h] split: sum.splits)
qed

lemma step_respiratory:
  assumes "active fm = Some (''respiratorynode_assessment'', create_assessment_node RespiratoryNode)"
  shows "adds fm (snd (step flows c fm)) [] \<or>
   (\<exists>reason. adds fm (snd (step flows c fm)) [(''emergency'', create_emergency_node reason)]) \<or>
   adds fm (snd (step flows c fm)) [(''medical_history'', create_medical_history_node)]"
proof -
  from assessment_functions(2) obtain f where
    f: "node_functions (create_assessment_node RespiratoryNode) = [f]"
    and h: "handler f = Some Assess_respiratory"
      "transition_callback f = Some Handle_respiratory_assessment"
    by (rule single_function)
  have s: "step flows c fm =
     (if fn_name f = called c then call_function flows f c fm else (None, fm))"
    using assms f by (rule step_single)
  show ?thesis
  proof (cases "fn_name f = called c")
    case False
    then show ?thesis by (simp add: s)
  next
    case True
    show ?thesis
    proof (cases "assess_respiratory (raw_args c)")
      case (Inl e)
      then show ?thesis using True by (simp add: s call_function_cases [OF h])
    next
      case (Inr r)
      then have "snd (step flows c fm) = snd (handle_respiratory_assessment (raw_args c) r fm)"
        using True by (simp add: s call_function_cases [OF h])
      then show ?thesis using respiratory_adds [of fm "raw_args c" r] by simp
    qed
  qed
qed

lemma active_installed: "installed fm' = installed fm \<Longrightarrow> active fm' = active fm"
  by (simp add: active_def)


lemma adds_last:
  "adds fm fm' new \<Longrightarrow> new \<noteq> [] \<Longrightarrow>
     active fm' = Some (last new) \<and> installed fm' \<noteq> installed fm"
  by (simp add: adds_def active_def)

lemma class_names:
  "class_name ChestPainNode = ''ChestPainNode''" "class_name RespiratoryNode = ''RespiratoryNode''"
  by (simp_all add: ChestPainNode_def RespiratoryNode_def)

lemma rank_simps:
  "rank ''initial'' = 0" "rank ''chief_complaint'' = 1"
  "rank ''chestpainnode_assessment'' = 2" "rank ''respiratorynode_assessment'' = 2"
  "rank ''medical_history'' = 3" "rank ''emergency'' = 3" "rank ''wrap_up'' = 4"
  "rank ''end_call'' = 5"
  by (simp_all add: rank_def)

lemma rank_le: "rank name \<le> 5"
  by (simp add: rank_def)

lemma advances_Nil: "adds fm fm' [] \<Longrightarrow> advances p fm fm'"
  by (simp add: advances_def adds_def)

lemma advances_to:
  "adds fm fm' new \<Longrightarrow> new \<noteq> [] \<Longrightarrow> known_node (last new) \<Longrightarrow>
     rank (fst p) < rank (fst (last new)) \<Longrightarrow> advances p fm fm'"
  using adds_last [of fm fm' new] by (auto simp: advances_def)

lemma step_advances:
  assumes a: "active fm = Some p" and k: "known_node p" and r: "repository_registry flows"
  shows "advances p fm (snd (step flows c fm))"
proof -
  let ?fm' = "snd (step flows c fm)"
  from k show ?thesis
  proof (cases rule: known_node.cases)
    case entry
    with a have "active fm = Some (''initial'', create_entry_node)" by simp
    from step_entry [OF this, of flows c] show ?thesis
    proof (elim disjE)
      assume "adds fm ?fm' []"
      then show ?thesis by (rule advances_Nil)
    next
      assume "adds fm ?fm' [(''chief_complaint'', create_chief_complaint_node)]"
      then show ?thesis
        by (rule advances_to) (simp_all add: entry known_node.intros rank_simps)
    next
      assume "adds fm ?fm' [(''end_call'', create_end_call_node decline_message)]"
      then show ?thesis
        by (rule advances_to) (simp_all add: entry known_node.intros rank_simps)
    qed
  next
    case chief
    with a have "active fm = Some (''chief_complaint'', create_chief_complaint_node)" by simp
    from step_chief [OF this, of flows c] show ?thesis
    proof (elim disjE bexE exE)
      assume "adds fm ?fm' []"
      then show ?thesis by (rule advances_Nil)
    next
      assume "adds fm ?fm' [(''medical_history'', create_medical_history_node)]"
      then show ?thesis
        by (rule advances_to) (simp_all add: chief known_node.intros rank_simps)
    next
      fix flow m
      assume mem: "flow \<in> set (map snd flows)"
        and ad: "adds fm ?fm'
          [(str_lower (class_name flow) @ ''_intro'', create_transition_node flow m),
           (str_lower (class_name flow) @ ''_assessment'', create_assessment_node flow)]"
      from mem r have "flow = ChestPainNode \<or> flow = RespiratoryNode"
        by (auto simp: repository_registry_def list_all_iff)
      then have "known_node (str_lower (class_name flow) @ ''_assessment'', create_assessment_node flow)
        \<and> rank (str_lower (class_name flow) @ ''_assessment'') = 2"
        by (auto simp: class_names lower_class_names known_node.intros rank_simps simp del: str_lower_simps)
      with ad show ?thesis
        by (intro advances_to [OF ad]) (simp_all add: chief rank_simps)
    qed
  next
    case chest
    with a have "active fm = Some (''chestpainnode_assessment'', create_assessment_node ChestPainNode)"
      by simp
    from step_chest_pain [OF this, of flows c] show ?thesis by (rule advances_Nil)
  next
    case resp
    with a have "active fm = Some (''respiratorynode_assessment'', create_assessment_node RespiratoryNode)"
      by simp
    from step_respiratory [OF this, of flows c] show ?thesis
    proof (elim disjE exE)
      assume "adds fm ?fm' []"
      then show ?thesis by (rule advances_Nil)
    next
      fix reason
      assume "adds fm ?fm' [(''emergency'', create_emergency_node reason)]"
      then show ?thesis
        by (rule advances_to) (simp_all add: resp known_node.intros rank_simps)
    next
      assume "adds fm ?fm' [(''medical_history'', create_medical_history_node)]"
      then show ?thesis
        by (rule advances_to) (simp_all add: resp known_node.intros rank_simps)
    qed
  next
    case med
    with a have "active fm = Some (''medical_history'', create_medical_history_node)" by simp
    from step_medical_history [OF this, of flows c] show ?thesis
    proof (elim disjE)
      assume "adds fm ?fm' []"
      then show ?thesis by (rule advances_Nil)
    next
      assume "adds fm ?fm' [(''wrap_up'', create_wrap_up_node)]"
      then show ?thesis
        by (rule advances_to) (simp_all add: med known_node.intros rank_simps)
    qed
  next
    case wrap
    with a have "active fm = Some (''wrap_up'', create_wrap_up_node)" by simp
    from step_wrap_up [OF this, of flows c] show ?thesis
    proof (elim disjE exE)
      assume "adds fm ?fm' []"
      then show ?thesis by (rule advances_Nil)
    next
      fix m
      assume "adds fm ?fm' [(''end_call'', create_end_call_node m)]"
      then show ?thesis
        by (rule advances_to) (simp_all add: wrap known_node.intros rank_simps)
    qed
  next
    case (emergency reason)
    with a have "active fm = Some (''emergency'', create_emergency_node reason)" by simp
    from step_emergency [OF this, of flows c] show ?thesis
    proof (elim disjE exE)
      assume "adds fm ?fm' []"
      then show ?thesis by (rule advances_Nil)
    next
      fix m
      assume "adds fm ?fm' [(''end_call'', create_end_call_node m)]"
      then show ?thesis
        by (rule advances_to) (simp_all add: emergency known_node.intros rank_simps)
    qed
  next
    case (end_call message)
    with a have "active fm = Some (''end_call'', create_end_call_node message)" by simp
    from step_end_call [OF this, of flows c] show ?thesis by (simp add: advances_def)
  qed
qed

lemma path_ranked:
  assumes "active fm = Some p" and "known_node p" and "repository_registry flows"
  shows "distinct (path flows fm cs)
    \<and> (\<forall>x\<in>set (path flows fm cs). rank (fst p) \<le> rank x)
    \<and> length (path flows fm cs) + rank (fst p) \<le> 6"
  using assms(1,2)
proof (induction cs arbitrary: fm p)
  case Nil
  then show ?case using rank_le [of "fst p"]
    by (simp add: active_name_def split: prod.splits)
next
  case (Cons c cs)
  let ?fm' = "snd (step flows c fm)"
  have nm: "active_name fm = fst p"
    using Cons.prems by (simp add: active_name_def split: prod.splits)
  from step_advances [OF Cons.prems assms(3), of c]
  have "advances p fm ?fm'" .
  then consider
      (same) "installed ?fm' = installed fm"
    | (moved) q where "installed ?fm' \<noteq> installed fm" "active ?fm' = Some q" "known_node q"
        "rank (fst p) < rank (fst q)"
    by (auto simp: advances_def)
  then show ?case
  proof cases
    case same
    then have "active ?fm' = Some p" using Cons.prems active_installed [of ?fm' fm] by simp
    from Cons.IH [OF this Cons.prems(2)] same show ?thesis by simp
  next
    case moved
    from Cons.IH [OF moved(2,3)]
    have ih: "distinct (path flows ?fm' cs)"
      "\<forall>x\<in>set (path flows ?fm' cs). rank (fst q) \<le> rank x"
      "length (path flows ?fm' cs) + rank (fst q) \<le> 6"
      by simp_all
    have notin: "fst p \<notin> set (path flows ?fm' cs)"
      using ih(2) moved(4) by auto
    have le: "\<forall>x\<in>set (path flows ?fm' cs). rank (fst p) \<le> rank x"
      using ih(2) moved(4) by auto
    show ?thesis using moved(1,4) ih(1,3) notin le by (simp add: nm)
  qed
qed

lemma active_session_start: "active session_start = Some (''initial'', create_entry_node)"
  by (simp add: session_start_def)

lemma path_from_start:
  assumes "repository_registry flows"
  shows "distinct (path flows session_start cs)" and "length (path flows session_start cs) \<le> 6"
  using path_ranked [OF active_session_start known_node.entry assms, of cs] by simp_all

lemma conforms_empty: "conforms ps Map.empty"
  by (simp add: conforms_def list_all_iff)

lemma well_formed_single:
  assumes "active fm = Some (name, n)" and "node_functions n = [f]"
  shows "well_formed_call fm c \<longleftrightarrow> fn_name f = called c \<and> conforms (properties f) (raw_args c)"
  using assms by (simp add: well_formed_call_def)

lemma well_formed_none:
  assumes "active fm = Some (name, n)" and "node_functions n = []"
  shows "\<not> well_formed_call fm c"
  using assms by (simp add: well_formed_call_def)

lemma remaining_simps:
  "remaining ''initial'' = 4" "remaining ''chief_complaint'' = 3"
  "remaining ''medical_history'' = 2" "remaining ''wrap_up'' = 1" "remaining ''end_call'' = 0"
  by (simp_all add: remaining_def)

lemma wf_entry:
  assumes a: "active fm = Some (''initial'', create_entry_node)" and w: "well_formed_call fm c"
  shows "adds fm (snd (step flows c fm)) [(''chief_complaint'', create_chief_complaint_node)]
    \<or> adds fm (snd (step flows c fm)) [(''end_call'', create_end_call_node decline_message)]"
proof -
  let ?f = "\<lparr>fn_name = ''process_consent'', handler = Some Verify_consent,
       description = ''Process patient consent'', properties = [(''consent'', TBoolean)],
       required = [''consent''], transition_callback = Some Handle_consent_transition,
       transition_to = None\<rparr>"
  have nf: "node_functions create_entry_node = [?f]" by (simp add: node_functions_simps)
  have s: "step flows c fm =
     (if fn_name ?f = called c then call_function flows ?f c fm else (None, fm))"
    using a nf by (rule step_single)
  from w have n: "fn_name ?f = called c"
    using well_formed_single [OF a nf, of c] by simp
  obtain b where b: "verify_consent (raw_args c) = Inr (consent_result b)"
    by (cases "args_get (raw_args c) ''consent'' (PStr [])") (simp_all add: verify_consent_def)
  have "snd (step flows c fm) = snd (handle_consent_transition (raw_args c) (consent_result b) fm)"
    using n b by (simp add: s call_function_def)
  then show ?thesis
    by (cases b)
      (simp_all add: handle_consent_transition_def consent_result_def subscript_def adds_def
        decline_message_def)
qed

lemma wf_chief:
  assumes a: "active fm = Some (''chief_complaint'', create_chief_complaint_node)"
    and w: "well_formed_call fm c"
  shows "adds fm (snd (step NodeRegistry_flows c fm)) [(''medical_history'', create_medical_history_node)]"
proof -
  let ?f = "\<lparr>fn_name = ''collect_chief_complaint'', handler = Some Collect_chief_complaint,
       description = ''Collect chief complaint information'',
       properties = [(''complaint'', TString), (''duration'', TString)],
       required = [''complaint'', ''duration''],
       transition_callback = Some Handle_complaint_transition, transition_to = None\<rparr>"
  have nf: "node_functions create_chief_complaint_node = [?f]" by (simp add: node_functions_simps)
  have s: "step NodeRegistry_flows c fm =
     (if fn_name ?f = called c then call_function NodeRegistry_flows ?f c fm else (None, fm))"
    using a nf by (rule step_single)
  from w have n: "fn_name ?f = called c"
    and cf: "conforms [(''complaint'', TString), (''duration'', TString)] (raw_args c)"
    using well_formed_single [OF a nf, of c] by simp_all
  from cf obtain s0 where t: "args_get (raw_args c) ''complaint'' (PStr []) = PStr s0"
    by (auto simp: args_get_def split: option.splits pyval.splits)
  have "snd (step NodeRegistry_flows c fm) =
      snd (handle_complaint_transition NodeRegistry_flows (raw_args c)
        (PDict [(''status'', PStr ''success''), (''complaint'', PStr s0),
                (''duration'', args_get (raw_args c) ''duration'' (PStr []))]) fm)"
    using n t by (simp add: s call_function_def collect_chief_complaint_def)
  then show ?thesis
    by (simp add: handle_complaint_transition_def subscript_def get_node_for_complaint_def
        lower_method_def NodeRegistry_flows_def adds_def)
qed

lemma wf_medical_history:
  assumes a: "active fm = Some (''medical_history'', create_medical_history_node)"
    and w: "well_formed_call fm c"
  shows "adds fm (snd (step flows c fm)) [(''wrap_up'', create_wrap_up_node)]"
proof -
  obtain f where f: "node_functions create_medical_history_node = [f]"
    and h: "fn_name f = ''collect_medical_history''" "handler f = Some Collect_medical_history"
      "transition_callback f = Some Handle_medical_history_transition"
    by (simp add: more_node_functions)
  have s: "step flows c fm =
     (if fn_name f = called c then call_function flows f c fm else (None, fm))"
    using a f by (rule step_single)
  from w have n: "fn_name f = called c"
    using well_formed_single [OF a f, of c] by simp
  show ?thesis
    using n
    by (simp add: s call_function_cases [OF h(2,3)] collect_medical_history_def
        handle_medical_history_transition_def subscript_def adds_def)
qed

lemma wf_wrap_up:
  assumes a: "active fm = Some (''wrap_up'', create_wrap_up_node)" and w: "well_formed_call fm c"
  shows "adds fm (snd (step flows c fm))
    [(''end_call'', create_end_call_node ''Thank you for your time. Goodbye!'')]"
proof -
  let ?f = "\<lparr>fn_name = ''finish_conversation'', handler = None, description = ''End the conversation'',
       properties = [], required = [], transition_callback = Some Handle_wrap_up_transition,
       transition_to = None\<rparr>"
  have nf: "node_functions create_wrap_up_node = [?f]" by (simp add: node_functions_simps)
  have s: "step flows c fm =
     (if fn_name ?f = called c then call_function flows ?f c fm else (None, fm))"
    using a nf by (rule step_single)
  from w have n: "fn_name ?f = called c"
    using well_formed_single [OF a nf, of c] by simp
  show ?thesis
    using n by (simp add: s call_function_def handle_wrap_up_transition_def adds_def)
qed

text \<open>A well-formed call moves the session on.\<close>

lemma wf_step:
  assumes a: "active fm = Some p" and g: "general_node p" and w: "well_formed_call fm c"
  shows "\<exists>q. active (snd (step NodeRegistry_flows c fm)) = Some q \<and> general_node q
    \<and> remaining (fst q) < remaining (fst p)
    \<and> installed (snd (step NodeRegistry_flows c fm)) \<noteq> installed fm"
proof -
  let ?fm' = "snd (step NodeRegistry_flows c fm)"
  have to: "\<exists>q. active ?fm' = Some q \<and> general_node q \<and> remaining (fst q) < remaining (fst p)
      \<and> installed ?fm' \<noteq> installed fm"
    if "adds fm ?fm' [q]" "general_node q" "remaining (fst q) < remaining (fst p)" for q
    using adds_last [OF that(1)] that(2,3) by auto
  from g show ?thesis
  proof (cases rule: general_node.cases)
    case g_entry
    with a have "active fm = Some (''initial'', create_entry_node)" by simp
    from wf_entry [OF this w, of NodeRegistry_flows] show ?thesis
    proof
      assume "adds fm ?fm' [(''chief_complaint'', create_chief_complaint_node)]"
      then show ?thesis
        by (rule to) (simp_all add: g_entry general_node.intros remaining_simps)
    next
      assume "adds fm ?fm' [(''end_call'', create_end_call_node decline_message)]"
      then show ?thesis
        by (rule to) (simp_all add: g_entry general_node.intros remaining_simps)
    qed
  next
    case g_chief
    with a have "active fm = Some (''chief_complaint'', create_chief_complaint_node)" by simp
    from wf_chief [OF this w] show ?thesis
      by (rule to) (simp_all add: g_chief general_node.intros remaining_simps)
  next
    case g_med
    with a have "active fm = Some (''medical_history'', create_medical_history_node)" by simp
    from wf_medical_history [OF this w, of NodeRegistry_flows] show ?thesis
      by (rule to) (simp_all add: g_med general_node.intros remaining_simps)
  next
    case g_wrap
    with a have "active fm = Some (''wrap_up'', create_wrap_up_node)" by simp
    from wf_wrap_up [OF this w, of NodeRegistry_flows] show ?thesis
      by (rule to) (simp_all add: g_wrap general_node.intros remaining_simps)
  next
    case (g_end message)
    with a have "active fm = Some (''end_call'', create_end_call_node message)" by simp
    from well_formed_none [OF this, of c] w show ?thesis
      by (simp add: node_functions_simps)
  qed
qed

lemma wf_run:
  assumes "active fm = Some p" and "general_node p"
    and "well_formed_calls NodeRegistry_flows fm cs"
  shows "length (path NodeRegistry_flows fm cs) = Suc (length cs)
    \<and> (\<exists>q. active (run NodeRegistry_flows fm cs) = Some q \<and> general_node q
          \<and> length cs + remaining (fst q) \<le> remaining (fst p))"
  using assms
proof (induction cs arbitrary: fm p)
  case Nil
  then show ?case by simp
next
  case (Cons c cs)
  let ?fm' = "snd (step NodeRegistry_flows c fm)"
  from Cons.prems have w: "well_formed_call fm c"
    and ws: "well_formed_calls NodeRegistry_flows ?fm' cs"
    by simp_all
  from wf_step [OF Cons.prems(1,2) w] obtain q where
    q: "active ?fm' = Some q" "general_node q" "remaining (fst q) < remaining (fst p)"
      "installed ?fm' \<noteq> installed fm"
    by blast
  from Cons.IH [OF q(1,2) ws] obtain q' where
    "length (path NodeRegistry_flows ?fm' cs) = Suc (length cs)"
    "active (run NodeRegistry_flows ?fm' cs) = Some q'" "general_node q'"
    "length cs + remaining (fst q') \<le> remaining (fst q)"
    by blast
  with q(3,4) show ?case by auto
qed

lemma wf_exists:
  assumes "active fm = Some q" and "general_node q" and "fst q \<noteq> ''end_call''"
  shows "\<exists>c. well_formed_call fm c"
proof -
  have ex: "\<exists>c. well_formed_call fm c"
    if "active fm = Some (name, n)" "map fn_name (node_functions n) = [fname]" for name n fname
  proof -
    from that(2) obtain f where f: "node_functions n = [f]" "fn_name f = fname"
      by (cases "node_functions n") auto
    have "well_formed_call fm \<lparr>called = fname, clock = [], raw_args = Map.empty\<rparr>"
      using well_formed_single [OF that(1) f(1)] f(2) by (simp add: conforms_empty)
    then show ?thesis ..
  qed
  from assms(2) show ?thesis
  proof (cases rule: general_node.cases)
    case g_entry
    then show ?thesis
      using assms(1) ex [of "''initial''" create_entry_node "''process_consent''"]
      by (simp add: node_functions_simps)
  next
    case g_chief
    then show ?thesis
      using assms(1) ex [of "''chief_complaint''" create_chief_complaint_node "''collect_chief_complaint''"]
      by (simp add: node_functions_simps)
  next
    case g_med
    then show ?thesis
      using assms(1) ex [of "''medical_history''" create_medical_history_node "''collect_medical_history''"]
      by (simp add: more_node_functions)
  next
    case g_wrap
    then show ?thesis
      using assms(1) ex [of "''wrap_up''" create_wrap_up_node "''finish_conversation''"]
      by (simp add: node_functions_simps)
  next
    case (g_end message)
    with assms(3) show ?thesis by simp
  qed
qed

lemma remaining_zero: "general_node q \<Longrightarrow> remaining (fst q) = 0 \<Longrightarrow> fst q = ''end_call''"
  by (erule general_node.cases) (simp_all add: remaining_simps)

lemma wf_from_start:
  assumes "well_formed_calls NodeRegistry_flows session_start cs"
  shows "length (path NodeRegistry_flows session_start cs) = Suc (length cs)"
    and "length cs \<le> 4"
    and "length cs = 4 \<Longrightarrow> active_name (run NodeRegistry_flows session_start cs) = ''end_call''"
    and "active_name (run NodeRegistry_flows session_start cs) \<noteq> ''end_call'' \<Longrightarrow>
      \<exists>c. well_formed_call (run NodeRegistry_flows session_start cs) c"
proof -
  from wf_run [OF active_session_start general_node.g_entry assms] obtain q where
    l: "length (path NodeRegistry_flows session_start cs) = Suc (length cs)"
    and q: "active (run NodeRegistry_flows session_start cs) = Some q" "general_node q"
    and r: "length cs + remaining (fst q) \<le> 4"
    by (auto simp: remaining_simps)
  have nm: "active_name (run NodeRegistry_flows session_start cs) = fst q"
    using q(1) by (simp add: active_name_def split: prod.splits)
  show "length (path NodeRegistry_flows session_start cs) = Suc (length cs)" by (rule l)
  show "length cs \<le> 4" using r by simp
  show "active_name (run NodeRegistry_flows session_start cs) = ''end_call''" if "length cs = 4"
    using that r remaining_zero [OF q(2)] by (simp add: nm)
  show "\<exists>c. well_formed_call (run NodeRegistry_flows session_start cs) c"
    if "active_name (run NodeRegistry_flows session_start cs) \<noteq> ''end_call''"
    using wf_exists [OF q] that by (simp add: nm)
qed

subsection \<open>Sessions over a registry with specialties\<close>

text \<open>At the chief complaint node a well-formed call installs the medical history node
  or, when a registered specialty is triggered, that specialty's two nodes.\<close>

lemma wf_chief_installs:
  assumes a: "active fm = Some (''chief_complaint'', create_chief_complaint_node)"
    and w: "well_formed_call fm c"
  shows "installed (snd (step flows c fm)) \<noteq> installed fm"
proof -
  let ?f = "\<lparr>fn_name = ''collect_chief_complaint'', handler = Some Collect_chief_complaint,
       description = ''Collect chief complaint information'',
       properties = [(''complaint'', TString), (''duration'', TString)],
       required = [''complaint'', ''duration''],
       transition_callback = Some Handle_complaint_transition, transition_to = None\<rparr>"
  have nf: "node_functions create_chief_complaint_node = [?f]" by (simp add: node_functions_simps)
  have s: "step flows c fm =
     (if fn_name ?f = called c then call_function flows ?f c fm else (None, fm))"
    using a nf by (rule step_single)
  from w have n: "fn_name ?f = called c"
    and cf: "conforms [(''complaint'', TString), (''duration'', TString)] (raw_args c)"
    using well_formed_single [OF a nf, of c] by simp_all
  from cf obtain s0 where t: "args_get (raw_args c) ''complaint'' (PStr []) = PStr s0"
    by (auto simp: args_get_def split: option.splits pyval.splits)
  have "snd (step flows c fm) =
      snd (handle_complaint_transition flows (raw_args c)
        (PDict [(''status'', PStr ''success''), (''complaint'', PStr s0),
                (''duration'', args_get (raw_args c) ''duration'' (PStr []))]) fm)"
    using n t by (simp add: s call_function_def collect_chief_complaint_def)
  then show ?thesis
    by (simp add: handle_complaint_transition_def subscript_def get_node_for_complaint_def
        lower_method_def setup_specialty_def Let_def split: option.splits)
qed

text \<open>At the respiratory assessment a well-formed call installs the emergency node or the
  medical history node.\<close>

lemma wf_respiratory_installs:
  assumes a: "active fm = Some (''respiratorynode_assessment'', create_assessment_node RespiratoryNode)"
    and w: "well_formed_call fm c"
  shows "installed (snd (step flows c fm)) \<noteq> installed fm"
proof -
  from assessment_functions(2) obtain f where
    f: "node_functions (create_assessment_node RespiratoryNode) = [f]"
    and h: "fn_name f = ''assess_respiratory''" "handler f = Some Assess_respiratory"
      "transition_callback f = Some Handle_respiratory_assessment"
    by (rule single_function)
  have s: "step flows c fm =
     (if fn_name f = called c then call_function flows f c fm else (None, fm))"
    using a f by (rule step_single)
  from w have n: "fn_name f = called c" and cf: "conforms (properties f) (raw_args c)"
    using well_formed_single [OF a f, of c] by simp_all
  have "properties f = parameters (create_assessment_node RespiratoryNode)"
    by (simp add: parameters_def f)
  with cf have cd: "conforms (declared_parameters Assess_respiratory) (raw_args c)" by simp
  then obtain d where d: "assess_respiratory (raw_args c) = Inr (PDict d)"
    using assess_respiratory_total by blast
  from cd have listed: "symptoms_listed (raw_args c)"
    by (simp add: declared_respiratory conforms_symptoms_listed)
  have "snd (step flows c fm) = snd (handle_respiratory_assessment (raw_args c) (PDict d) fm)"
    using n d by (simp add: s call_function_cases [OF h(2,3)])
  moreover from respiratory_callback_routes [OF listed d, of fm]
  have "installed (snd (handle_respiratory_assessment (raw_args c) (PDict d) fm)) \<noteq> installed fm"
    by auto
  ultimately show ?thesis by simp
qed

text \<open>At the emergency node a well-formed call installs the end node.\<close>

lemma wf_emergency:
  assumes a: "active fm = Some (''emergency'', create_emergency_node reason)"
    and w: "well_formed_call fm c"
  shows "adds fm (snd (step flows c fm))
    [(''end_call'', create_end_call_node
        ''Please stay on the line while I transfer you to our medical staff.'')]"
proof -
  obtain f where f: "node_functions (create_emergency_node reason) = [f]"
    and h: "fn_name f = ''handle_emergency''" "handler f = Some Handle_emergency"
      "transition_callback f = Some Handle_emergency_transition"
    by (simp add: more_node_functions)
  have s: "step flows c fm =
     (if fn_name f = called c then call_function flows f c fm else (None, fm))"
    using a f by (rule step_single)
  from w have n: "fn_name f = called c"
    using well_formed_single [OF a f, of c] by simp
  show ?thesis
    using n
    by (simp add: s call_function_cases [OF h(2,3)] handle_emergency_def
        handle_emergency_transition_def get_method_def adds_def)
qed

lemma adds_installs: "adds fm fm' new \<Longrightarrow> new \<noteq> [] \<Longrightarrow> installed fm' \<noteq> installed fm"
  by (simp add: adds_def)

text \<open>Everywhere but at the chest pain assessment, a well-formed call installs a node.\<close>

lemma wf_installs:
  assumes a: "active fm = Some p" and k: "known_node p"
    and nc: "fst p \<noteq> ''chestpainnode_assessment''"
    and w: "well_formed_call fm c"
  shows "installed (snd (step flows c fm)) \<noteq> installed fm"
  using k
proof (cases rule: known_node.cases)
  case entry
  with a have "active fm = Some (''initial'', create_entry_node)" by simp
  from wf_entry [OF this w, of flows] show ?thesis
    by (auto dest: adds_installs)
next
  case chief
  with a have "active fm = Some (''chief_complaint'', create_chief_complaint_node)" by simp
  then show ?thesis using w by (rule wf_chief_installs)
next
  case chest
  with nc show ?thesis by simp
next
  case resp
  with a have "active fm = Some (''respiratorynode_assessment'', create_assessment_node RespiratoryNode)"
    by simp
  then show ?thesis using w by (rule wf_respiratory_installs)
next
  case med
  with a have "active fm = Some (''medical_history'', create_medical_history_node)" by simp
  from wf_medical_history [OF this w, of flows] show ?thesis
    by (auto dest: adds_installs)
next
  case wrap
  with a have "active fm = Some (''wrap_up'', create_wrap_up_node)" by simp
  from wf_wrap_up [OF this w, of flows] show ?thesis
    by (auto dest: adds_installs)
next
  case (emergency reason)
  with a have "active fm = Some (''emergency'', create_emergency_node reason)" by simp
  from wf_emergency [OF this w, of flows] show ?thesis
    by (auto dest: adds_installs)
next
  case (end_call message)
  with a have "active fm = Some (''end_call'', create_end_call_node message)" by simp
  from well_formed_none [OF this, of c] w show ?thesis
    by (simp add: node_functions_simps)
qed

lemma hd_path:
  "hd (path flows fm cs) = active_name fm"
proof (induction cs arbitrary: fm)
  case Nil
  then show ?case by simp
next
  case (Cons c cs)
  show ?case
  proof (cases "installed (snd (step flows c fm)) = installed fm")
    case True
    then have "active (snd (step flows c fm)) = active fm" by (rule active_installed)
    then have "active_name (snd (step flows c fm)) = active_name fm"
      by (simp add: active_name_def)
    with True Cons.IH [of "snd (step flows c fm)"] show ?thesis by simp
  next
    case False
    then show ?thesis by simp
  qed
qed

lemma path_not_Nil: "path flows fm cs \<noteq> []"
  by (induction cs arbitrary: fm) simp_all

lemma active_name_in_path: "active_name fm \<in> set (path flows fm cs)"
  using hd_path [of flows fm cs] path_not_Nil [of flows fm cs] hd_in_set by metis

lemma wf_run_known:
  assumes "active fm = Some p" and "known_node p" and r: "repository_registry flows"
    and "well_formed_calls flows fm cs"
    and "''chestpainnode_assessment'' \<notin> set (path flows fm cs)"
  shows "length (path flows fm cs) = Suc (length cs)
    \<and> (\<exists>q. active (run flows fm cs) = Some q \<and> known_node q
          \<and> length cs + rank (fst p) \<le> rank (fst q))"
  using assms(1,2,4,5)
proof (induction cs arbitrary: fm p)
  case Nil
  then show ?case by simp
next
  case (Cons c cs)
  let ?fm' = "snd (step flows c fm)"
  from Cons.prems have w: "well_formed_call fm c"
    and ws: "well_formed_calls flows ?fm' cs"
    by simp_all
  have nm: "active_name fm = fst p"
    using Cons.prems(1) by (simp add: active_name_def split: prod.splits)
  have "active_name fm \<in> set (path flows fm (c # cs))" by (rule active_name_in_path)
  with Cons.prems(4) nm have nc: "fst p \<noteq> ''chestpainnode_assessment''" by metis
  from wf_installs [OF Cons.prems(1,2) nc w]
  have i: "installed ?fm' \<noteq> installed fm" .
  from step_advances [OF Cons.prems(1,2) r, of c] i obtain q where
    q: "active ?fm' = Some q" "known_node q" "rank (fst p) < rank (fst q)"
    by (auto simp: advances_def)
  from Cons.prems(4) i have "''chestpainnode_assessment'' \<notin> set (path flows ?fm' cs)"
    by simp
  from Cons.IH [OF q(1,2) ws this] obtain q' where
    "length (path flows ?fm' cs) = Suc (length cs)"
    "active (run flows ?fm' cs) = Some q'" "known_node q'"
    "length cs + rank (fst q) \<le> rank (fst q')"
    by blast
  with q(3) i show ?case by auto
qed

lemma wf_exists_known:
  assumes "active fm = Some q" and "known_node q" and "fst q \<noteq> ''end_call''"
  shows "\<exists>c. well_formed_call fm c"
proof -
  have ex: "\<exists>c. well_formed_call fm c"
    if "active fm = Some (name, n)" "map fn_name (node_functions n) = [fname]" for name n fname
  proof -
    from that(2) obtain f where f: "node_functions n = [f]" "fn_name f = fname"
      by (cases "node_functions n") auto
    have "well_formed_call fm \<lparr>called = fname, clock = [], raw_args = Map.empty\<rparr>"
      using well_formed_single [OF that(1) f(1)] f(2) by (simp add: conforms_empty)
    then show ?thesis by blast
  qed
  have fn: "map fn_name fs = [a]"
    if "map (\<lambda>f. (fn_name f, handler f, transition_callback f)) fs = [(a, h, cb)]" for fs a h cb
    using that by (cases fs) auto
  from assms(2) show ?thesis
  proof (cases rule: known_node.cases)
    case entry
    then show ?thesis
      using assms(1) ex [of "''initial''" create_entry_node "''process_consent''"]
      by (simp add: node_functions_simps)
  next
    case chief
    then show ?thesis
      using assms(1) ex [of "''chief_complaint''" create_chief_complaint_node "''collect_chief_complaint''"]
      by (simp add: node_functions_simps)
  next
    case chest
    then show ?thesis
      using assms(1) fn [OF assessment_functions(1)]
        ex [of "''chestpainnode_assessment''" "create_assessment_node ChestPainNode" "''assess_chest_pain''"]
      by simp
  next
    case resp
    then show ?thesis
      using assms(1) fn [OF assessment_functions(2)]
        ex [of "''respiratorynode_assessment''" "create_assessment_node RespiratoryNode" "''assess_respiratory''"]
      by simp
  next
    case med
    then show ?thesis
      using assms(1) ex [of "''medical_history''" create_medical_history_node "''collect_medical_history''"]
      by (simp add: more_node_functions)
  next
    case wrap
    then show ?thesis
      using assms(1) ex [of "''wrap_up''" create_wrap_up_node "''finish_conversation''"]
      by (simp add: node_functions_simps)
  next
    case (emergency reason)
    then show ?thesis
      using assms(1) ex [of "''emergency''" "create_emergency_node reason" "''handle_emergency''"]
      by (simp add: more_node_functions)
  next
    case (end_call message)
    with assms(3) show ?thesis by simp
  qed
qed

lemma rank_five: "known_node q \<Longrightarrow> 5 \<le> rank (fst q) \<Longrightarrow> fst q = ''end_call''"
  by (erule known_node.cases) (simp_all add: rank_simps)

lemma wf_session_reaches_end:
  assumes "repository_registry flows"
    and "well_formed_calls flows session_start cs"
    and "''chestpainnode_assessment'' \<notin> set (path flows session_start cs)"
  shows "length (path flows session_start cs) = Suc (length cs)"
    and "length cs \<le> 5"
    and "length cs = 5 \<Longrightarrow> active_name (run flows session_start cs) = ''end_call''"
    and "active_name (run flows session_start cs) \<noteq> ''end_call'' \<Longrightarrow>
      \<exists>c. well_formed_call (run flows session_start cs) c"
proof -
  from wf_run_known [OF active_session_start known_node.entry assms] obtain q where
    l: "length (path flows session_start cs) = Suc (length cs)"
    and q: "active (run flows session_start cs) = Some q" "known_node q"
    and r: "length cs \<le> rank (fst q)"
    by (auto simp: rank_simps)
  have nm: "active_name (run flows session_start cs) = fst q"
    using q(1) by (simp add: active_name_def split: prod.splits)
  show "length (path flows session_start cs) = Suc (length cs)" by (rule l)
  show "length cs \<le> 5" using r rank_le [of "fst q"] by simp
  show "active_name (run flows session_start cs) = ''end_call''" if "length cs = 5"
    using that r rank_five [OF q(2)] by (simp add: nm)
  show "\<exists>c. well_formed_call (run flows session_start cs) c"
    if "active_name (run flows session_start cs) \<noteq> ''end_call''"
    using wf_exists_known [OF q] that by (simp add: nm)
qed

text \<open>
  What holds of every session: over every registry that holds the repository's
  specialties the states visited from the entry node are pairwise different and at most
  6 (\<open>path_from_start\<close>), and as long as the session does not enter the chest pain
  assessment every well-formed call moves it to a new state, a well-formed call exists
  unless it is at the end node, and 5 such calls reach the end node
  (\<open>wf_session_reaches_end\<close>). A session through the respiratory assessment visits the
  six states of the longest path, or goes from the assessment through the emergency node
  to the end node.
\<close>

lemma respiratory_session_path:
  "path [(''RespiratoryNode'', RespiratoryNode)] session_start
     [\<lparr>called = ''process_consent'', clock = ''09:00'', raw_args = [''consent'' \<mapsto> PBool True]\<rparr>,
      \<lparr>called = ''collect_chief_complaint'', clock = ''09:01'',
        raw_args = [''complaint'' \<mapsto> PStr ''a bad Cough'', ''duration'' \<mapsto> PStr ''a week'']\<rparr>,
      \<lparr>called = ''assess_respiratory'', clock = ''09:02'',
        raw_args = [''breathing_difficulty'' \<mapsto> PStr ''mild'']\<rparr>,
      \<lparr>called = ''collect_medical_history'', clock = ''09:03'', raw_args = Map.empty\<rparr>,
      \<lparr>called = ''finish_conversation'', clock = ''09:04'', raw_args = Map.empty\<rparr>]
    = [''initial'', ''chief_complaint'', ''respiratorynode_assessment'', ''medical_history'',
       ''wrap_up'', ''end_call'']"
  by code_simp

lemma respiratory_emergency_session_path:
  "path [(''RespiratoryNode'', RespiratoryNode)] session_start
     [\<lparr>called = ''process_consent'', clock = ''09:00'', raw_args = [''consent'' \<mapsto> PBool True]\<rparr>,
      \<lparr>called = ''collect_chief_complaint'', clock = ''09:01'',
        raw_args = [''complaint'' \<mapsto> PStr ''a bad Cough'', ''duration'' \<mapsto> PStr ''a week'']\<rparr>,
      \<lparr>called = ''assess_respiratory'', clock = ''09:02'',
        raw_args = [''breathing_difficulty'' \<mapsto> PStr ''mild'',
                    ''associated_symptoms'' \<mapsto> PList [PStr ''Blue lips'']]\<rparr>,
      \<lparr>called = ''handle_emergency'', clock = ''09:03'', raw_args = Map.empty\<rparr>]
    = [''initial'', ''chief_complaint'', ''respiratorynode_assessment'', ''emergency'', ''end_call'']"
  by code_simp

subsection \<open>A session that enters the chest pain assessment\<close>





end
